theory Spec2Isabelle
  imports Main
begin

section \<open>Exceptions\<close>

text \<open>
  The program raises and catches Python exceptions. An exception is modelled by its
  class, its message (\<open>str(e)\<close>) and the exception that was being handled when it was
  raised (Python stores that one in \<open>__context__\<close>). Subclasses of \<open>OSError\<close>
  (\<open>PermissionError\<close>, \<open>FileNotFoundError\<close>, ...) are all caught by
  \<open>except OSError\<close> and are given the class \<open>OSError\<close>; \<open>OtherException\<close> stands for
  any further subclass of \<open>Exception\<close>.
\<close>

datatype exn_class = ValueError | RuntimeError | OSError | UniquenessException | OtherException

datatype exn = Exn (cls: exn_class) (msg: string) (ctx: "exn option")

text \<open>The message literals of \<open>main.py\<close>, as UTF-8 bytes (lines 25, 44, 90 and 92).\<close>

definition msg_count :: string where
  "msg_count =
    [CHR 0xD0, CHR 0x9A, CHR 0xD0, CHR 0xBE, CHR 0xD0, CHR 0xBB, CHR 0xD0, CHR 0xB8,
     CHR 0xD1, CHR 0x87, CHR 0xD0, CHR 0xB5, CHR 0xD1, CHR 0x81, CHR 0xD1, CHR 0x82,
     CHR 0xD0, CHR 0xB2, CHR 0xD0, CHR 0xBE, CHR 0x20, CHR 0xD0, CHR 0xB7, CHR 0xD0,
     CHR 0xB0, CHR 0xD0, CHR 0xBF, CHR 0xD0, CHR 0xB8, CHR 0xD1, CHR 0x81, CHR 0xD0,
     CHR 0xB5, CHR 0xD0, CHR 0xB9, CHR 0x20, CHR 0xD0, CHR 0xB4, CHR 0xD0, CHR 0xBE,
     CHR 0xD0, CHR 0xBB, CHR 0xD0, CHR 0xB6, CHR 0xD0, CHR 0xBD, CHR 0xD0, CHR 0xBE,
     CHR 0x20, CHR 0xD0, CHR 0xB1, CHR 0xD1, CHR 0x8B, CHR 0xD1, CHR 0x82, CHR 0xD1,
     CHR 0x8C, CHR 0x20, CHR 0xD0, CHR 0xB1, CHR 0xD0, CHR 0xBE, CHR 0xD0, CHR 0xBB,
     CHR 0xD1, CHR 0x8C, CHR 0xD1, CHR 0x88, CHR 0xD0, CHR 0xB5, CHR 0x20, CHR 0x30]"

definition msg_generation :: string where
  "msg_generation =
    [CHR 0xD0, CHR 0x9E, CHR 0xD1, CHR 0x88, CHR 0xD0, CHR 0xB8, CHR 0xD0, CHR 0xB1,
     CHR 0xD0, CHR 0xBA, CHR 0xD0, CHR 0xB0, CHR 0x20, CHR 0xD0, CHR 0xBF, CHR 0xD1,
     CHR 0x80, CHR 0xD0, CHR 0xB8, CHR 0x20, CHR 0xD0, CHR 0xB3, CHR 0xD0, CHR 0xB5,
     CHR 0xD0, CHR 0xBD, CHR 0xD0, CHR 0xB5, CHR 0xD1, CHR 0x80, CHR 0xD0, CHR 0xB0,
     CHR 0xD1, CHR 0x86, CHR 0xD0, CHR 0xB8, CHR 0xD0, CHR 0xB8, CHR 0x20, CHR 0xD0,
     CHR 0xB4, CHR 0xD0, CHR 0xB0, CHR 0xD0, CHR 0xBD, CHR 0xD0, CHR 0xBD, CHR 0xD1,
     CHR 0x8B, CHR 0xD1, CHR 0x85, CHR 0x3A, CHR 0x20]"

definition msg_storage :: string where
  "msg_storage =
    [CHR 0xD0, CHR 0x9E, CHR 0xD1, CHR 0x88, CHR 0xD0, CHR 0xB8, CHR 0xD0, CHR 0xB1,
     CHR 0xD0, CHR 0xBA, CHR 0xD0, CHR 0xB0, CHR 0x20, CHR 0xD0, CHR 0xBF, CHR 0xD1,
     CHR 0x80, CHR 0xD0, CHR 0xB8, CHR 0x20, CHR 0xD1, CHR 0x81, CHR 0xD0, CHR 0xBE,
     CHR 0xD1, CHR 0x85, CHR 0xD1, CHR 0x80, CHR 0xD0, CHR 0xB0, CHR 0xD0, CHR 0xBD,
     CHR 0xD0, CHR 0xB5, CHR 0xD0, CHR 0xBD, CHR 0xD0, CHR 0xB8, CHR 0xD0, CHR 0xB8,
     CHR 0x20, CHR 0xD1, CHR 0x84, CHR 0xD0, CHR 0xB0, CHR 0xD0, CHR 0xB9, CHR 0xD0,
     CHR 0xBB, CHR 0xD0, CHR 0xBE, CHR 0xD0, CHR 0xB2, CHR 0x3A, CHR 0x20]"

definition msg_unexpected :: string where
  "msg_unexpected =
    [CHR 0xD0, CHR 0x9D, CHR 0xD0, CHR 0xB5, CHR 0xD0, CHR 0xBE, CHR 0xD0, CHR 0xB6,
     CHR 0xD0, CHR 0xB8, CHR 0xD0, CHR 0xB4, CHR 0xD0, CHR 0xB0, CHR 0xD0, CHR 0xBD,
     CHR 0xD0, CHR 0xBD, CHR 0xD0, CHR 0xB0, CHR 0xD1, CHR 0x8F, CHR 0x20, CHR 0xD0,
     CHR 0xBE, CHR 0xD1, CHR 0x88, CHR 0xD0, CHR 0xB8, CHR 0xD0, CHR 0xB1, CHR 0xD0,
     CHR 0xBA, CHR 0xD0, CHR 0xB0, CHR 0x20, CHR 0xD0, CHR 0xBF, CHR 0xD1, CHR 0x80,
     CHR 0xD0, CHR 0xB8, CHR 0x20, CHR 0xD1, CHR 0x81, CHR 0xD0, CHR 0xBE, CHR 0xD1,
     CHR 0x85, CHR 0xD1, CHR 0x80, CHR 0xD0, CHR 0xB0, CHR 0xD0, CHR 0xBD, CHR 0xD0,
     CHR 0xB5, CHR 0xD0, CHR 0xBD, CHR 0xD0, CHR 0xB8, CHR 0xD0, CHR 0xB8, CHR 0x3A,
     CHR 0x20]"

section \<open>The record fields\<close>

text \<open>
  The keys of the dictionary literal of lines 33 to 42, as UTF-8 bytes, in the order in
  which the literal lists them.
\<close>

definition col_id :: string where
  "col_id = ''ID''"

definition col_name :: string where
  "col_name = [CHR 0xD0, CHR 0x98, CHR 0xD0, CHR 0xBC, CHR 0xD1, CHR 0x8F]"

definition col_company :: string where
  "col_company =
    [CHR 0xD0, CHR 0x9A, CHR 0xD0, CHR 0xBE, CHR 0xD0, CHR 0xBC, CHR 0xD0, CHR 0xBF,
     CHR 0xD0, CHR 0xB0, CHR 0xD0, CHR 0xBD, CHR 0xD0, CHR 0xB8, CHR 0xD1, CHR 0x8F]"

definition col_job :: string where
  "col_job =
    [CHR 0xD0, CHR 0x94, CHR 0xD0, CHR 0xBE, CHR 0xD0, CHR 0xBB, CHR 0xD0, CHR 0xB6,
     CHR 0xD0, CHR 0xBD, CHR 0xD0, CHR 0xBE, CHR 0xD1, CHR 0x81, CHR 0xD1, CHR 0x82,
     CHR 0xD1, CHR 0x8C]"

definition col_email :: string where
  "col_email = ''Email''"

definition col_ip :: string where
  "col_ip =
    [CHR 0x49, CHR 0x50, CHR 0x2D, CHR 0xD0, CHR 0xB0, CHR 0xD0, CHR 0xB4, CHR 0xD1,
     CHR 0x80, CHR 0xD0, CHR 0xB5, CHR 0xD1, CHR 0x81]"

definition col_date :: string where
  "col_date =
    [CHR 0xD0, CHR 0x94, CHR 0xD0, CHR 0xB0, CHR 0xD1, CHR 0x82, CHR 0xD0, CHR 0xB0,
     CHR 0x20, CHR 0xD1, CHR 0x80, CHR 0xD0, CHR 0xB5, CHR 0xD0, CHR 0xB3, CHR 0xD0,
     CHR 0xB8, CHR 0xD1, CHR 0x81, CHR 0xD1, CHR 0x82, CHR 0xD1, CHR 0x80, CHR 0xD0,
     CHR 0xB0, CHR 0xD1, CHR 0x86, CHR 0xD0, CHR 0xB8, CHR 0xD0, CHR 0xB8]"

definition col_description :: string where
  "col_description =
    [CHR 0xD0, CHR 0x9E, CHR 0xD0, CHR 0xBF, CHR 0xD0, CHR 0xB8, CHR 0xD1, CHR 0x81,
     CHR 0xD0, CHR 0xB0, CHR 0xD0, CHR 0xBD, CHR 0xD0, CHR 0xB8, CHR 0xD0, CHR 0xB5]"

definition field_order :: "string list" where
  "field_order =
    [col_id, col_name, col_company, col_job, col_email, col_ip, col_date, col_description]"

section \<open>Tables\<close>

text \<open>
  A cell of a table is an integer, a string or the missing value. A Python dictionary
  with string keys is an association list in insertion order. A \<open>pandas.DataFrame\<close>
  is its column labels and its rows, each row holding one cell per column.
\<close>

datatype cell = IntCell int | StrCell string | NaN

type_synonym py_dict = "(string \<times> cell) list"

record dataframe =
  columns :: "string list"
  rows :: "cell list list"

text \<open>
  \<open>pd.DataFrame(data)\<close> for a list of dictionaries: the columns are the keys in the
  order of their first appearance, and a key a dictionary lacks gives the missing value.
\<close>

fun union_keys :: "string list \<Rightarrow> py_dict list \<Rightarrow> string list" where
  "union_keys acc [] = acc"
| "union_keys acc (d # ds) =
     union_keys (acc @ filter (\<lambda>k. k \<notin> set acc) (map fst d)) ds"

definition row_of :: "string list \<Rightarrow> py_dict \<Rightarrow> cell list" where
  "row_of cols d = map (\<lambda>c. case map_of d c of Some v \<Rightarrow> v | None \<Rightarrow> NaN) cols"

definition DataFrame :: "py_dict list \<Rightarrow> dataframe" where
  "DataFrame data =
     (let cols = union_keys [] data
      in \<lparr>columns = cols, rows = map (row_of cols) data\<rparr>)"

text \<open>\<open>df[c]\<close>: the cells of column \<open>c\<close>, row by row (\<open>None\<close> where there is no such column).\<close>

definition column :: "dataframe \<Rightarrow> string \<Rightarrow> cell option list" where
  "column df c = map (\<lambda>r. map_of (zip (columns df) r) c) (rows df)"

section \<open>The process and its environment\<close>

text \<open>
  What the three writers leave in a file, at the level of its logical content: the
  header and the rows of the delimited file, the array of objects of the JSON file (each
  object with its keys in order), the header and the rows of the plain-text table.
  Quoting, indentation, encoding and column alignment are the business of the library
  and are not modelled.
\<close>

datatype document =
  CsvFile "string list" "cell list list"
| JsonFile "py_dict list"
| TxtFile "string list" "cell list list"

datatype fs_op = Mkdir string | ToCsv string | ToJson string | WriteTxt string

text \<open>The lines the program prints (the elapsed time of line 49 is not modelled).\<close>

datatype console_line =
  CollisionAdvisory
| PreparationDone
| CsvSaved string
| JsonSaved string
| TxtSaved string
| AllSaved string

datatype provider = Name | Company | Job | Email | Ipv4 | Text

text \<open>
  The state the program acts on.
  \<^item> \<open>entropy\<close>, \<open>cursor\<close>: the random generator of the module-level \<open>fake\<close> object, as
    the stream of raw numbers it will yield and the number of them consumed so far;
  \<^item> \<open>seen\<close>: the values \<open>fake.unique\<close> has already handed out for
    \<open>random_int(min=100000, max=999999)\<close>, the only call the program makes through it;
  \<^item> \<open>locale_data\<close>, \<open>date_data\<close>: the library's tables, turning a raw number into the
    value of a provider;
  \<^item> \<open>stdout\<close>: the lines printed so far;
  \<^item> \<open>dirs\<close>, \<open>files\<close>: the directories and the regular files of the file system;
  \<^item> \<open>failure\<close>: the operations the environment refuses (permission denied, disk full,
    a serialisation error), each with the exception it raises; \<open>residue\<close>: what a
    refused write leaves at its path (\<open>None\<close>: the path is as before).
\<close>

record world =
  entropy :: "nat \<Rightarrow> nat"
  cursor :: nat
  seen :: "int set"
  locale_data :: "provider \<Rightarrow> nat \<Rightarrow> string"
  date_data :: "nat \<Rightarrow> nat \<times> nat \<times> nat"
  stdout :: "console_line list"
  dirs :: "string set"
  files :: "string \<rightharpoonup> document"
  failure :: "fs_op \<Rightarrow> exn option"
  residue :: "string \<Rightarrow> document option"

definition print :: "console_line \<Rightarrow> world \<Rightarrow> world" where
  "print line w = w\<lparr>stdout := stdout w @ [line]\<rparr>"

section \<open>The fake-data library\<close>

text \<open>
  \<open>main.py\<close> draws every value from the \<open>Faker\<close> library, which is not part of the
  repository. What its random generator yields and what its locale tables hold are
  parameters of the model (\<open>entropy\<close>, \<open>locale_data\<close>, \<open>date_data\<close>): the properties
  below hold whatever they are. Every call of a provider consumes one raw number.
\<close>

definition next_raw :: "world \<Rightarrow> nat \<times> world" where
  "next_raw w = (entropy w (cursor w), w\<lparr>cursor := Suc (cursor w)\<rparr>)"

text \<open>\<open>random_int(min, max)\<close>: an integer \<open>n\<close> with \<open>min \<le> n \<le> max\<close>.\<close>

definition random_int :: "int \<Rightarrow> int \<Rightarrow> world \<Rightarrow> int \<times> world" where
  "random_int lo hi w =
     (case next_raw w of (r, w') \<Rightarrow> (lo + int r mod (hi - lo + 1), w'))"

text \<open>
  The wrapper \<open>fake.unique\<close> puts around a provider:
  \<^verbatim>\<open>
  retval = self._sentinel
  for i in range(_UNIQUENESS_MAX_RETRIES):
      if retval not in generated:
          break
      retval = function(*args, **kwargs)
  else:
      raise UniquenessException(...)
  generated.add(retval)
  return retval
  \<close>
  The sentinel belongs to \<open>generated\<close> from the start; it is \<open>None\<close> here.
\<close>

definition UNIQUENESS_MAX_RETRIES :: nat where
  "UNIQUENESS_MAX_RETRIES = 1000"

definition uniqueness_exception :: exn where
  "uniqueness_exception =
     Exn UniquenessException ''Got duplicated values after 1,000 iterations.'' None"

fun unique_loop :: "nat \<Rightarrow> int \<Rightarrow> int \<Rightarrow> int option \<Rightarrow> world \<Rightarrow> (exn + int) \<times> world" where
  "unique_loop 0 lo hi retval w = (Inl uniqueness_exception, w)"
| "unique_loop (Suc i) lo hi retval w =
     (case retval of
        Some v \<Rightarrow>
          if v \<notin> seen w then (Inr v, w\<lparr>seen := insert v (seen w)\<rparr>)
          else (case random_int lo hi w of (v', w') \<Rightarrow> unique_loop i lo hi (Some v') w')
      | None \<Rightarrow>
          (case random_int lo hi w of (v', w') \<Rightarrow> unique_loop i lo hi (Some v') w'))"

definition unique_random_int :: "int \<Rightarrow> int \<Rightarrow> world \<Rightarrow> (exn + int) \<times> world" where
  "unique_random_int lo hi w = unique_loop UNIQUENESS_MAX_RETRIES lo hi None w"

definition provide :: "provider \<Rightarrow> world \<Rightarrow> string \<times> world" where
  "provide p w = (case next_raw w of (r, w') \<Rightarrow> (locale_data w p r, w'))"

definition date_this_decade :: "world \<Rightarrow> (nat \<times> nat \<times> nat) \<times> world" where
  "date_this_decade w = (case next_raw w of (r, w') \<Rightarrow> (date_data w r, w'))"

definition digit :: "nat \<Rightarrow> char" where
  "digit d = char_of (48 + d mod 10)"

text \<open>\<open>strftime("%Y-%m-%d")\<close>, for a year of four digits.\<close>

definition strftime_ymd :: "nat \<times> nat \<times> nat \<Rightarrow> string" where
  "strftime_ymd date =
     (case date of (y, m, d) \<Rightarrow>
        [digit (y div 1000), digit (y div 100), digit (y div 10), digit y] @ ''-'' @
        [digit (m div 10), digit m] @ ''-'' @ [digit (d div 10), digit d])"

text \<open>\<open>s.replace('\n', ' ')\<close>\<close>

definition replace_newlines :: "string \<Rightarrow> string" where
  "replace_newlines s = map (\<lambda>c. if c = CHR 0x0A then CHR '' '' else c) s"

section \<open>The generator\<close>

text \<open>
  One evaluation of the dictionary literal of lines 33 to 42: the values are computed in
  the order of the literal, the identifier first, and an exception abandons the rest.
\<close>

definition make_record :: "world \<Rightarrow> (exn + py_dict) \<times> world" where
  "make_record w =
     (case unique_random_int 100000 999999 w of
        (Inl e, w1) \<Rightarrow> (Inl e, w1)
      | (Inr i, w1) \<Rightarrow>
          (case provide Name w1 of (name, w2) \<Rightarrow>
           case provide Company w2 of (company, w3) \<Rightarrow>
           case provide Job w3 of (job, w4) \<Rightarrow>
           case provide Email w4 of (email, w5) \<Rightarrow>
           case provide Ipv4 w5 of (ip, w6) \<Rightarrow>
           case date_this_decade w6 of (date, w7) \<Rightarrow>
           case provide Text w7 of (descr, w8) \<Rightarrow>
             (Inr [(col_id, IntCell i),
                   (col_name, StrCell name),
                   (col_company, StrCell company),
                   (col_job, StrCell job),
                   (col_email, StrCell email),
                   (col_ip, StrCell ip),
                   (col_date, StrCell (strftime_ymd date)),
                   (col_description, StrCell (replace_newlines descr))], w8)))"

text \<open>The loop of lines 32 to 42, with \<open>data\<close> the list built so far.\<close>

fun generate_loop :: "nat \<Rightarrow> py_dict list \<Rightarrow> world \<Rightarrow> (exn + py_dict list) \<times> world" where
  "generate_loop 0 data w = (Inr data, w)"
| "generate_loop (Suc k) data w =
     (case make_record w of
        (Inl e, w') \<Rightarrow> (Inl e, w')
      | (Inr r, w') \<Rightarrow> generate_loop k (data @ [r]) w')"

definition generate_data_pandas :: "int \<Rightarrow> world \<Rightarrow> (exn + dataframe) \<times> world" where
  "generate_data_pandas num_records w =
     (if num_records < 1 then (Inl (Exn ValueError msg_count None), w)
      else
        let w1 = (if num_records > 900000 then print CollisionAdvisory w else w)
        in case generate_loop (nat num_records) [] w1 of
             (Inl e, w2) \<Rightarrow> (Inl (Exn RuntimeError (msg_generation @ msg e) (Some e)), w2)
           | (Inr data, w2) \<Rightarrow> (Inr (DataFrame data), print PreparationDone w2))"

section \<open>The file system\<close>

text \<open>
  The operations of \<open>os\<close> and \<open>pandas\<close> that \<open>save_all_formats\<close> calls, on a
  file system whose directories and files are named by their path strings. Which
  operations the environment refuses, and with which exception, is a parameter of the
  model (\<open>failure\<close>).
\<close>

text \<open>
  \<open>os.path.dirname\<close> of \<open>posixpath\<close>: everything up to the last slash, with the
  trailing slashes removed unless the head consists of slashes only.
\<close>

definition dirname :: "string \<Rightarrow> string" where
  "dirname p =
     (let head = rev (dropWhile (\<lambda>c. c \<noteq> CHR ''/'') (rev p))
      in if head \<noteq> [] \<and> (\<exists>c \<in> set head. c \<noteq> CHR ''/'')
         then rev (dropWhile (\<lambda>c. c = CHR ''/'') (rev head))
         else head)"

text \<open>
  The directories on the way to \<open>name\<close>, the shortest first and \<open>name\<close> itself last:
  the prefixes of \<open>name\<close> that end where a component ends. The root is none of them.
\<close>

fun ancestors_from :: "string \<Rightarrow> string \<Rightarrow> string list" where
  "ancestors_from pre [] = (if pre \<noteq> [] \<and> last pre \<noteq> CHR ''/'' then [pre] else [])"
| "ancestors_from pre (c # cs) =
     (if c = CHR ''/'' \<and> pre \<noteq> [] \<and> last pre \<noteq> CHR ''/'' then [pre] else [])
     @ ancestors_from (pre @ [c]) cs"

definition ancestors :: "string \<Rightarrow> string list" where
  "ancestors name = ancestors_from [] name"

text \<open>An error of the operating system, with the text Python gives it.\<close>

definition os_error :: "string \<Rightarrow> string \<Rightarrow> exn" where
  "os_error what path = Exn OSError (what @ '': '' @ [CHR 0x27] @ path @ [CHR 0x27]) None"

text \<open>\<open>os.mkdir\<close>, called when the parent directory is there.\<close>

definition mkdir :: "string \<Rightarrow> world \<Rightarrow> (exn + unit) \<times> world" where
  "mkdir path w =
     (case failure w (Mkdir path) of
        Some e \<Rightarrow> (Inl e, w)
      | None \<Rightarrow>
          if files w path \<noteq> None \<or> path \<in> dirs w
          then (Inl (os_error ''[Errno 17] File exists'' path), w)
          else (Inr (), w\<lparr>dirs := insert path (dirs w)\<rparr>))"

text \<open>
  \<open>os.makedirs(name, exist_ok=True)\<close>: every directory on the way that is not there yet
  is made, the outermost first; one that is there already is left alone.
\<close>

fun makedirs_from :: "string list \<Rightarrow> world \<Rightarrow> (exn + unit) \<times> world" where
  "makedirs_from [] w = (Inr (), w)"
| "makedirs_from (c # cs) w =
     (if c \<in> dirs w then makedirs_from cs w
      else (case mkdir c w of
              (Inl e, w') \<Rightarrow> (Inl e, w')
            | (Inr u, w') \<Rightarrow> makedirs_from cs w'))"

definition makedirs :: "string \<Rightarrow> world \<Rightarrow> (exn + unit) \<times> world" where
  "makedirs name w = makedirs_from (ancestors name) w"

definition parent_exists :: "world \<Rightarrow> string \<Rightarrow> bool" where
  "parent_exists w path =
     (let d = dirname path in d = [] \<or> (\<forall>c \<in> set d. c = CHR ''/'') \<or> d \<in> dirs w)"

text \<open>
  Creating (or truncating) the file at \<open>path\<close> and writing \<open>doc\<close> to it. The environment
  may refuse; otherwise the parent directory must be there and the path must not be a
  directory.
\<close>

definition write_file :: "fs_op \<Rightarrow> string \<Rightarrow> document \<Rightarrow> world \<Rightarrow> (exn + unit) \<times> world" where
  "write_file op path doc w =
     (case failure w op of
        Some e \<Rightarrow>
          (Inl e, case residue w path of
                    None \<Rightarrow> w
                  | Some d \<Rightarrow> w\<lparr>files := (files w)(path \<mapsto> d)\<rparr>)
      | None \<Rightarrow>
          if \<not> parent_exists w path
          then (Inl (os_error ''[Errno 2] No such file or directory'' path), w)
          else if path \<in> dirs w
          then (Inl (os_error ''[Errno 21] Is a directory'' path), w)
          else (Inr (), w\<lparr>files := (files w)(path \<mapsto> doc)\<rparr>))"

text \<open>\<open>df.to_csv(path, index=False)\<close>: the column labels, then the rows.\<close>

definition to_csv :: "dataframe \<Rightarrow> string \<Rightarrow> world \<Rightarrow> (exn + unit) \<times> world" where
  "to_csv df path w = write_file (ToCsv path) path (CsvFile (columns df) (rows df)) w"

text \<open>
  \<open>df.to_json(path, orient='records')\<close>: one object per row, keyed by the column labels.
  The library refuses a table whose column labels repeat, with a \<open>ValueError\<close> raised
  before the file is opened.
\<close>

definition columns_not_unique :: exn where
  "columns_not_unique =
     Exn ValueError
       (''DataFrame columns must be unique for orient='' @ [CHR 0x27] @ ''records''
          @ [CHR 0x27] @ ''.'') None"

definition to_json :: "dataframe \<Rightarrow> string \<Rightarrow> world \<Rightarrow> (exn + unit) \<times> world" where
  "to_json df path w =
     (if \<not> distinct (columns df) then (Inl columns_not_unique, w)
      else write_file (ToJson path) path (JsonFile (map (zip (columns df)) (rows df))) w)"

text \<open>\<open>open(path, 'w')\<close> and \<open>f.write(df.to_string(index=False))\<close>.\<close>

definition write_txt :: "dataframe \<Rightarrow> string \<Rightarrow> world \<Rightarrow> (exn + unit) \<times> world" where
  "write_txt df path w = write_file (WriteTxt path) path (TxtFile (columns df) (rows df)) w"

section \<open>The exporter\<close>

text \<open>The literal of line 86, as UTF-8 bytes.\<close>

definition msg_current_dir :: string where
  "msg_current_dir =
    [CHR 0xD1, CHR 0x82, CHR 0xD0, CHR 0xB5, CHR 0xD0, CHR 0xBA, CHR 0xD1, CHR 0x83,
     CHR 0xD1, CHR 0x89, CHR 0xD1, CHR 0x83, CHR 0xD1, CHR 0x8E, CHR 0x20, CHR 0xD0,
     CHR 0xB4, CHR 0xD0, CHR 0xB8, CHR 0xD1, CHR 0x80, CHR 0xD0, CHR 0xB5, CHR 0xD0,
     CHR 0xBA, CHR 0xD1, CHR 0x82, CHR 0xD0, CHR 0xBE, CHR 0xD1, CHR 0x80, CHR 0xD0,
     CHR 0xB8, CHR 0xD1, CHR 0x8E]"

text \<open>The body of the \<open>try\<close> statement of \<open>save_all_formats\<close> (lines 65 to 87).\<close>

definition save_all_formats_try :: "dataframe \<Rightarrow> string \<Rightarrow> world \<Rightarrow> (exn + unit) \<times> world" where
  "save_all_formats_try df base_name w =
     (let output_dir = dirname base_name in
      case (if output_dir \<noteq> [] then makedirs output_dir w else (Inr (), w)) of
        (Inl e, w1) \<Rightarrow> (Inl e, w1)
      | (Inr u1, w1) \<Rightarrow>
          let csv_path = base_name @ ''.csv'' in
          (case to_csv df csv_path w1 of
             (Inl e, w2) \<Rightarrow> (Inl e, w2)
           | (Inr u2, w2) \<Rightarrow>
               let w3 = print (CsvSaved csv_path) w2;
                   json_path = base_name @ ''.json'' in
               (case to_json df json_path w3 of
                  (Inl e, w4) \<Rightarrow> (Inl e, w4)
                | (Inr u3, w4) \<Rightarrow>
                    let w5 = print (JsonSaved json_path) w4;
                        txt_path = base_name @ ''.txt'' in
                    (case write_txt df txt_path w5 of
                       (Inl e, w6) \<Rightarrow> (Inl e, w6)
                     | (Inr u4, w6) \<Rightarrow>
                         let w7 = print (TxtSaved txt_path) w6;
                             output_dir_display =
                               (if output_dir \<noteq> [] then output_dir else msg_current_dir)
                         in (Inr (), print (AllSaved output_dir_display) w7)))))"

text \<open>The two handlers (lines 89 to 92): the first that matches the exception applies.\<close>

definition save_all_formats :: "dataframe \<Rightarrow> string \<Rightarrow> world \<Rightarrow> (exn + unit) \<times> world" where
  "save_all_formats df base_name w =
     (case save_all_formats_try df base_name w of
        (Inl e, w') \<Rightarrow>
          if cls e = OSError
          then (Inl (Exn OSError (msg_storage @ msg e) (Some e)), w')
          else (Inl (Exn RuntimeError (msg_unexpected @ msg e) (Some e)), w')
      | (Inr u, w') \<Rightarrow> (Inr u, w'))"

section \<open>Auxiliary notions and sample inputs\<close>

text \<open>Whether the text \<open>s\<close> contains \<open>p\<close> as a contiguous piece.\<close>

fun contains :: "string \<Rightarrow> string \<Rightarrow> bool" where
  "contains [] p = (p = [])"
| "contains (c # cs) p = (take (length p) (c # cs) = p \<or> contains cs p)"



text \<open>The lines a call has printed: what \<open>stdout\<close> holds beyond what it held before.\<close>

definition printed :: "world \<Rightarrow> world \<Rightarrow> console_line list" where
  "printed w w' = drop (length (stdout w)) (stdout w')"

text \<open>
  The identifier space: the values that occur as the \<open>ID\<close> of some row of some table
  that some call of the generator returns, in some state of the process.
\<close>

definition identifier_space :: "int set" where
  "identifier_space =
     {v. \<exists>n w df w'. generate_data_pandas n w = (Inr df, w')
            \<and> Some (IntCell v) \<in> set (column df col_id)}"

text \<open>The number of identifiers of the range that have not been handed out yet.\<close>

definition remaining :: "world \<Rightarrow> nat" where
  "remaining w = card ({100000..999999} - seen w)"

text \<open>
  A process that has just started, on an empty file system that refuses nothing: no
  identifier handed out, nothing printed; the generator yields 0, 1, 2, ...
\<close>

definition fresh_world :: world where
  "fresh_world =
     \<lparr>entropy = (\<lambda>i. i), cursor = 0, seen = {},
      locale_data = (\<lambda>p r. ''x''), date_data = (\<lambda>r. (2024, 1, 1)),
      stdout = [], dirs = {}, files = Map.empty,
      failure = (\<lambda>op. None), residue = (\<lambda>p. None)\<rparr>"

definition sample_df :: dataframe where
  "sample_df = \<lparr>columns = [col_id], rows = [[IntCell 100000], [IntCell 100001]]\<rparr>"

definition no_space :: exn where
  "no_space = Exn OSError ''[Errno 28] No space left on device'' None"

text \<open>The same file system with the disk full when the JSON file is written.\<close>

definition json_refused_world :: world where
  "json_refused_world =
     fresh_world\<lparr>failure := (\<lambda>op. if op = ToJson ''out/data.json'' then Some no_space else None)\<rparr>"

text \<open>The same file system with the disk full when the CSV file is written.\<close>

definition csv_refused_world :: world where
  "csv_refused_world =
     fresh_world\<lparr>failure := (\<lambda>op. if op = ToCsv ''data.csv'' then Some no_space else None)\<rparr>"


section \<open>Properties of the library model\<close>

lemma next_raw_frame:
  "next_raw w = (r, w') \<Longrightarrow> w' = w\<lparr>cursor := Suc (cursor w)\<rparr>"
  by (auto simp: next_raw_def)

lemma random_int_range:
  assumes "random_int lo hi w = (v, w')" and "lo \<le> hi"
  shows "lo \<le> v \<and> v \<le> hi"
proof -
  have pos: "0 < hi - lo + 1" using assms(2) by simp
  obtain r where v: "v = lo + int r mod (hi - lo + 1)"
    using assms(1) by (auto simp: random_int_def next_raw_def)
  have "0 \<le> int r mod (hi - lo + 1)" "int r mod (hi - lo + 1) < hi - lo + 1"
    using pos pos_mod_sign[OF pos] pos_mod_bound[OF pos] by blast+
  with v show ?thesis by linarith
qed

lemma random_int_frame:
  "random_int lo hi w = (v, w') \<Longrightarrow> w' = w\<lparr>cursor := Suc (cursor w)\<rparr>"
  by (auto simp: random_int_def next_raw_def)

lemma unique_loop_Inr:
  assumes "unique_loop i lo hi retval w = (Inr v, w')" and "lo \<le> hi"
    and "\<forall>x. retval = Some x \<longrightarrow> lo \<le> x \<and> x \<le> hi"
  shows "v \<notin> seen w \<and> lo \<le> v \<and> v \<le> hi \<and> seen w' = insert v (seen w)
       \<and> stdout w' = stdout w \<and> dirs w' = dirs w \<and> files w' = files w
       \<and> cursor w \<le> cursor w'"
  using assms
proof (induction i lo hi retval w rule: unique_loop.induct)
  case (1 lo hi retval w)
  then show ?case by simp
next
  case (2 i lo hi retval w)
  obtain v' w1 where d: "random_int lo hi w = (v', w1)" by (cases "random_int lo hi w")
  have rng: "lo \<le> v' \<and> v' \<le> hi" using random_int_range[OF d "2.prems"(2)] .
  have fr: "w1 = w\<lparr>cursor := Suc (cursor w)\<rparr>" using random_int_frame[OF d] .
  show ?case
  proof (cases retval)
    case None
    with "2.prems" d have "unique_loop i lo hi (Some v') w1 = (Inr v, w')" by simp
    from "2.IH"(1)[OF None d[symmetric] this "2.prems"(2)] rng fr show ?thesis by simp
  next
    case (Some x)
    show ?thesis
    proof (cases "x \<in> seen w")
      case True
      with "2.prems" d Some have "unique_loop i lo hi (Some v') w1 = (Inr v, w')" by simp
      from "2.IH"(2)[OF Some _ d[symmetric] this "2.prems"(2)] True rng fr show ?thesis by simp
    next
      case False
      with "2.prems" Some show ?thesis by auto
    qed
  qed
qed

lemma unique_loop_Inl:
  assumes "unique_loop i lo hi retval w = (Inl e, w')"
  shows "e = uniqueness_exception \<and> seen w' = seen w
       \<and> stdout w' = stdout w \<and> dirs w' = dirs w \<and> files w' = files w"
  using assms
proof (induction i lo hi retval w rule: unique_loop.induct)
  case (1 lo hi retval w)
  then show ?case by simp
next
  case (2 i lo hi retval w)
  obtain v' w1 where d: "random_int lo hi w = (v', w1)" by (cases "random_int lo hi w")
  have fr: "w1 = w\<lparr>cursor := Suc (cursor w)\<rparr>" using random_int_frame[OF d] .
  show ?case
  proof (cases retval)
    case None
    with "2.prems" d have "unique_loop i lo hi (Some v') w1 = (Inl e, w')" by simp
    from "2.IH"(1)[OF None d[symmetric] this] fr show ?thesis by simp
  next
    case (Some x)
    show ?thesis
    proof (cases "x \<in> seen w")
      case True
      with "2.prems" d Some have "unique_loop i lo hi (Some v') w1 = (Inl e, w')" by simp
      from "2.IH"(2)[OF Some _ d[symmetric] this] True fr show ?thesis by simp
    next
      case False
      with "2.prems" Some show ?thesis by auto
    qed
  qed
qed


lemma unique_loop_cursor:
  "unique_loop (Suc i) lo hi None w = (res, w') \<Longrightarrow> cursor w < cursor w'"
proof -
  have mono: "\<And>r w res w'. unique_loop i lo hi r w = (res, w') \<Longrightarrow> cursor w \<le> cursor w'"
  proof (induction i)
    case 0
    then show ?case by simp
  next
    case (Suc i)
    show ?case
    proof (cases "\<exists>x. r = Some x \<and> x \<notin> seen w")
      case True
      with Suc.prems show ?thesis by auto
    next
      case False
      then have "unique_loop i lo hi (Some (fst (random_int lo hi w))) (snd (random_int lo hi w))
                 = (res, w')"
        using Suc.prems by (cases r) (auto split: prod.splits)
      from Suc.IH[OF this] show ?thesis
        by (simp add: random_int_def next_raw_def)
    qed
  qed
  assume "unique_loop (Suc i) lo hi None w = (res, w')"
  then have "unique_loop i lo hi (Some (fst (random_int lo hi w))) (snd (random_int lo hi w))
             = (res, w')"
    by (auto split: prod.splits)
  from mono[OF this] show ?thesis
    by (simp add: random_int_def next_raw_def)
qed

lemma unique_random_int_Inr:
  assumes "unique_random_int lo hi w = (Inr v, w')" and "lo \<le> hi"
  shows "v \<notin> seen w \<and> lo \<le> v \<and> v \<le> hi \<and> seen w' = insert v (seen w)
       \<and> stdout w' = stdout w \<and> dirs w' = dirs w \<and> files w' = files w"
  using unique_loop_Inr[of UNIQUENESS_MAX_RETRIES lo hi None w v w'] assms
  by (simp add: unique_random_int_def)

lemma unique_random_int_Inl:
  assumes "unique_random_int lo hi w = (Inl e, w')"
  shows "e = uniqueness_exception \<and> seen w' = seen w
       \<and> stdout w' = stdout w \<and> dirs w' = dirs w \<and> files w' = files w"
  using unique_loop_Inl[of UNIQUENESS_MAX_RETRIES lo hi None w e w'] assms
  by (simp add: unique_random_int_def)

lemma unique_random_int_cursor:
  "unique_random_int lo hi w = (res, w') \<Longrightarrow> cursor w < cursor w'"
  using unique_loop_cursor[of 999 lo hi w res w']
  by (simp add: unique_random_int_def UNIQUENESS_MAX_RETRIES_def)

lemma make_record_Inr:
  assumes "make_record w = (Inr r, w')"
  shows "\<exists>i. map_of r col_id = Some (IntCell i) \<and> map fst r = field_order
           \<and> i \<notin> seen w \<and> 100000 \<le> i \<and> i \<le> 999999 \<and> seen w' = insert i (seen w)
           \<and> stdout w' = stdout w \<and> dirs w' = dirs w \<and> files w' = files w"
proof -
  obtain res w1 where u: "unique_random_int 100000 999999 w = (res, w1)"
    by (cases "unique_random_int 100000 999999 w")
  from assms u obtain i where res: "res = Inr i"
    by (cases res) (auto simp: make_record_def)
  note a = unique_random_int_Inr[OF u[unfolded res]]
  from assms u res have
    "map_of r col_id = Some (IntCell i) \<and> map fst r = field_order
       \<and> seen w' = seen w1 \<and> stdout w' = stdout w1 \<and> dirs w' = dirs w1 \<and> files w' = files w1"
    by (auto simp: make_record_def provide_def date_this_decade_def next_raw_def field_order_def
             split: prod.splits)
  with a show ?thesis by auto
qed

lemma make_record_Inl:
  assumes "make_record w = (Inl e, w')"
  shows "e = uniqueness_exception \<and> seen w' = seen w
       \<and> stdout w' = stdout w \<and> dirs w' = dirs w \<and> files w' = files w"
proof -
  obtain res w1 where u: "unique_random_int 100000 999999 w = (res, w1)"
    by (cases "unique_random_int 100000 999999 w")
  from assms u have "res = Inl e \<and> w1 = w'"
    by (cases res) (auto simp: make_record_def split: prod.splits)
  with unique_random_int_Inl[of 100000 999999 w e w'] u show ?thesis by simp
qed

lemma make_record_cursor:
  "make_record w = (res, w') \<Longrightarrow> cursor w < cursor w'"
proof -
  assume a: "make_record w = (res, w')"
  obtain r w1 where u: "unique_random_int 100000 999999 w = (r, w1)"
    by (cases "unique_random_int 100000 999999 w")
  have c: "cursor w < cursor w1" using unique_random_int_cursor[OF u] .
  from a u have "cursor w1 \<le> cursor w'"
    by (cases r) (auto simp: make_record_def provide_def date_this_decade_def next_raw_def
                       split: prod.splits)
  with c show ?thesis by simp
qed


lemma generate_loop_Inr:
  assumes "generate_loop k data w = (Inr data', w')"
  shows "\<exists>new is. data' = data @ new \<and> length new = k
           \<and> (\<forall>r \<in> set new. map fst r = field_order)
           \<and> map (\<lambda>r. map_of r col_id) new = map (\<lambda>i. Some (IntCell i)) is
           \<and> distinct is \<and> set is \<inter> seen w = {} \<and> set is \<subseteq> {100000..999999}
           \<and> seen w' = seen w \<union> set is
           \<and> stdout w' = stdout w \<and> dirs w' = dirs w \<and> files w' = files w"
  using assms
proof (induction k arbitrary: data w)
  case 0
  then show ?case by simp
next
  case (Suc k)
  obtain res w1 where m: "make_record w = (res, w1)" by (cases "make_record w")
  with Suc.prems obtain r where res: "res = Inr r" by (cases res) auto
  with Suc.prems m have rec: "generate_loop k (data @ [r]) w1 = (Inr data', w')" by simp
  from make_record_Inr[OF m[unfolded res]] obtain i where
    i: "map_of r col_id = Some (IntCell i)" "map fst r = field_order" "i \<notin> seen w"
       "100000 \<le> i" "i \<le> 999999" "seen w1 = insert i (seen w)"
       "stdout w1 = stdout w" "dirs w1 = dirs w" "files w1 = files w"
    by blast
  from Suc.IH[OF rec] obtain new "is" where
    n: "data' = (data @ [r]) @ new" "length new = k"
       "\<forall>r \<in> set new. map fst r = field_order"
       "map (\<lambda>r. map_of r col_id) new = map (\<lambda>i. Some (IntCell i)) is"
       "distinct is" "set is \<inter> seen w1 = {}" "set is \<subseteq> {100000..999999}"
       "seen w' = seen w1 \<union> set is"
       "stdout w' = stdout w1" "dirs w' = dirs w1" "files w' = files w1"
    by blast
  have "data' = data @ (r # new)" using n(1) by simp
  moreover have "length (r # new) = Suc k" using n(2) by simp
  moreover have "\<forall>r \<in> set (r # new). map fst r = field_order" using n(3) i(2) by simp
  moreover have "map (\<lambda>r. map_of r col_id) (r # new) = map (\<lambda>i. Some (IntCell i)) (i # is)"
    using n(4) i(1) by simp
  moreover have "distinct (i # is)" using n(5,6) i(6) by auto
  moreover have "set (i # is) \<inter> seen w = {}" using n(6) i(3,6) by auto
  moreover have "set (i # is) \<subseteq> {100000..999999}" using n(7) i(4,5) by simp
  moreover have "seen w' = seen w \<union> set (i # is)" using n(8) i(6) by auto
  moreover have "stdout w' = stdout w \<and> dirs w' = dirs w \<and> files w' = files w"
    using n(9,10,11) i(7,8,9) by simp
  ultimately show ?case by blast
qed

lemma generate_loop_Inl:
  assumes "generate_loop k data w = (Inl e, w')"
  shows "e = uniqueness_exception \<and> seen w \<subseteq> seen w'
       \<and> stdout w' = stdout w \<and> dirs w' = dirs w \<and> files w' = files w"
  using assms
proof (induction k arbitrary: data w)
  case 0
  then show ?case by simp
next
  case (Suc k)
  obtain res w1 where m: "make_record w = (res, w1)" by (cases "make_record w")
  show ?case
  proof (cases res)
    case (Inl e1)
    with Suc.prems m have "e1 = e \<and> w1 = w'" by simp
    with make_record_Inl[of w e w'] m Inl show ?thesis by simp
  next
    case (Inr r)
    with Suc.prems m have rec: "generate_loop k (data @ [r]) w1 = (Inl e, w')" by simp
    from make_record_Inr[OF m[unfolded Inr]] Suc.IH[OF rec] show ?thesis by auto
  qed
qed

lemma generate_loop_cursor:
  "generate_loop (Suc k) data w = (res, w') \<Longrightarrow> cursor w < cursor w'"
proof -
  have mono: "\<And>data w. generate_loop k data w = (res, w') \<Longrightarrow> cursor w \<le> cursor w'"
  proof (induction k)
    case 0
    then show ?case by simp
  next
    case (Suc k)
    obtain r w1 where m: "make_record w = (r, w1)" by (cases "make_record w")
    from make_record_cursor[OF m] have c: "cursor w < cursor w1" .
    show ?case
    proof (cases r)
      case (Inl e)
      with Suc.prems m c show ?thesis by simp
    next
      case (Inr d)
      with Suc.prems m have "generate_loop k (data @ [d]) w1 = (res, w')" by simp
      from Suc.IH[OF this] c show ?thesis by simp
    qed
  qed
  assume a: "generate_loop (Suc k) data w = (res, w')"
  obtain r w1 where m: "make_record w = (r, w1)" by (cases "make_record w")
  from make_record_cursor[OF m] have c: "cursor w < cursor w1" .
  show ?thesis
  proof (cases r)
    case (Inl e)
    with a m c show ?thesis by simp
  next
    case (Inr d)
    with a m have "generate_loop k (data @ [d]) w1 = (res, w')" by simp
    from mono[OF this] c show ?thesis by simp
  qed
qed

lemma field_order_distinct: "distinct field_order"
  by (simp add: field_order_def col_id_def col_name_def col_company_def col_job_def
        col_email_def col_ip_def col_date_def col_description_def)


lemma row_of_keys:
  "distinct (map fst d) \<Longrightarrow> row_of (map fst d) d = map snd d"
proof (induction d)
  case Nil
  then show ?case by (simp add: row_of_def)
next
  case (Cons kv d)
  obtain k v where kv: "kv = (k, v)" by (cases kv)
  from Cons.prems kv have k: "k \<notin> fst ` set d" and dd: "distinct (map fst d)" by auto
  have "map (\<lambda>c. case map_of (kv # d) c of Some v \<Rightarrow> v | None \<Rightarrow> NaN) (map fst d)
      = map (\<lambda>c. case map_of d c of Some v \<Rightarrow> v | None \<Rightarrow> NaN) (map fst d)"
    using k kv by (intro map_cong) auto
  with Cons.IH[OF dd] kv show ?case by (simp add: row_of_def)
qed

lemma union_keys_same:
  "\<forall>d \<in> set ds. map fst d = cols \<Longrightarrow> union_keys cols ds = cols"
  by (induction ds) auto

lemma DataFrame_uniform:
  assumes "data \<noteq> []" and "\<forall>d \<in> set data. map fst d = cols" and "distinct cols"
  shows "columns (DataFrame data) = cols" and "rows (DataFrame data) = map (map snd) data"
proof -
  from assms(1) obtain d ds where data: "data = d # ds" by (cases data) auto
  with assms(2) have "union_keys [] data = union_keys cols ds" by simp
  also have "\<dots> = cols" using assms(2) data by (intro union_keys_same) simp
  finally have c: "union_keys [] data = cols" .
  then show "columns (DataFrame data) = cols" by (simp add: DataFrame_def)
  have "map (row_of cols) data = map (map snd) data"
    using assms(2,3) row_of_keys by (intro map_cong) auto
  with c show "rows (DataFrame data) = map (map snd) data" by (simp add: DataFrame_def)
qed

lemma column_DataFrame:
  assumes "data \<noteq> []" and "\<forall>d \<in> set data. map fst d = cols" and "distinct cols"
  shows "column (DataFrame data) c = map (\<lambda>d. map_of d c) data"
proof -
  have "map_of (zip cols (map snd d)) c = map_of d c" if "d \<in> set data" for d
  proof -
    from that assms(2) have "cols = map fst d" by simp
    then show ?thesis by (simp add: zip_map_fst_snd)
  qed
  then show ?thesis
    unfolding column_def DataFrame_uniform[OF assms] by (simp add: comp_def)
qed

lemma generate_success:
  assumes "generate_data_pandas n w = (Inr df, w')"
  shows "1 \<le> n
       \<and> (\<exists>is. column df col_id = map (\<lambda>i. Some (IntCell i)) is
              \<and> length is = nat n \<and> distinct is \<and> set is \<inter> seen w = {}
              \<and> set is \<subseteq> {100000..999999} \<and> seen w' = seen w \<union> set is)
       \<and> columns df = field_order \<and> length (rows df) = nat n"
proof -
  from assms have n: "1 \<le> n" by (auto simp: generate_data_pandas_def split: if_splits)
  define w1 where "w1 = (if n > 900000 then print CollisionAdvisory w else w)"
  have s1: "seen w1 = seen w" by (simp add: w1_def print_def)
  obtain res w2 where g: "generate_loop (nat n) [] w1 = (res, w2)"
    by (cases "generate_loop (nat n) [] w1")
  from assms n g obtain data where res: "res = Inr data" and df: "df = DataFrame data"
    and w': "w' = print PreparationDone w2"
    by (cases res) (auto simp: generate_data_pandas_def w1_def Let_def)
  from generate_loop_Inr[OF g[unfolded res]] obtain "is" where
    d: "length data = nat n" "\<forall>r \<in> set data. map fst r = field_order"
       "map (\<lambda>r. map_of r col_id) data = map (\<lambda>i. Some (IntCell i)) is"
       "distinct is" "set is \<inter> seen w1 = {}" "set is \<subseteq> {100000..999999}"
       "seen w2 = seen w1 \<union> set is"
    by auto
  from d(1) n have ne: "data \<noteq> []" by auto
  have "column df col_id = map (\<lambda>i. Some (IntCell i)) is"
    using column_DataFrame[OF ne d(2) field_order_distinct] d(3) df by simp
  moreover have "length is = nat n"
    using d(1,3) by (metis length_map)
  moreover have "seen w' = seen w \<union> set is" using d(7) s1 w' by (simp add: print_def)
  moreover have "columns df = field_order"
    using DataFrame_uniform(1)[OF ne d(2) field_order_distinct] df by simp
  moreover have "length (rows df) = nat n"
    using DataFrame_uniform(2)[OF ne d(2) field_order_distinct] df d(1) by simp
  ultimately show ?thesis using n d(4,5,6) s1 by auto
qed


lemma remaining_after:
  assumes "distinct is" and "set is \<inter> seen w = {}" and "set is \<subseteq> {100000..999999}"
    and "seen w' = seen w \<union> set is"
  shows "remaining w' + length is = remaining w"
proof -
  have sub: "set is \<subseteq> {100000..999999} - seen w" using assms(2,3) by auto
  have "{100000..999999} - seen w' = ({100000..999999} - seen w) - set is"
    using assms(4) by auto
  then have "remaining w' = card ({100000..999999} - seen w) - card (set is)"
    unfolding remaining_def using sub by (simp add: card_Diff_subset)
  moreover have "card (set is) \<le> card ({100000..999999} - seen w)"
    using sub by (intro card_mono) auto
  moreover have "card (set is) = length is" using assms(1) by (rule distinct_card)
  ultimately show ?thesis by (simp add: remaining_def)
qed

lemma remaining_le: "remaining w \<le> 900000"
proof -
  have "card ({100000..999999} - seen w) \<le> card {100000..999999::int}"
    by (intro card_mono) auto
  then show ?thesis by (simp add: remaining_def)
qed

lemma generate_loop_exhausted:
  assumes "remaining w < k"
  shows "\<exists>w'. generate_loop k data w = (Inl uniqueness_exception, w')
            \<and> stdout w' = stdout w \<and> dirs w' = dirs w \<and> files w' = files w"
proof -
  obtain res w' where g: "generate_loop k data w = (res, w')"
    by (cases "generate_loop k data w")
  show ?thesis
  proof (cases res)
    case (Inl e)
    with generate_loop_Inl[of k data w e w'] g show ?thesis by simp
  next
    case (Inr data')
    from generate_loop_Inr[OF g[unfolded Inr]] obtain new "is" where
      n: "length new = k" "map (\<lambda>r. map_of r col_id) new = map (\<lambda>i. Some (IntCell i)) is"
         "distinct is" "set is \<inter> seen w = {}" "set is \<subseteq> {100000..999999}"
         "seen w' = seen w \<union> set is"
      by blast
    have "length is = k" using n(1,2) by (metis length_map)
    with remaining_after[OF n(3,4,5,6)] assms show ?thesis by simp
  qed
qed

lemma unique_loop_first:
  assumes "lo + int (entropy w (cursor w)) mod (hi - lo + 1) \<notin> seen w"
  shows "unique_loop (Suc (Suc i)) lo hi None w =
           (Inr (lo + int (entropy w (cursor w)) mod (hi - lo + 1)),
            w\<lparr>cursor := Suc (cursor w),
              seen := insert (lo + int (entropy w (cursor w)) mod (hi - lo + 1)) (seen w)\<rparr>)"
  using assms by (simp add: random_int_def next_raw_def)

lemma unique_random_int_first:
  assumes "lo + int (entropy w (cursor w)) mod (hi - lo + 1) \<notin> seen w"
  shows "unique_random_int lo hi w =
           (Inr (lo + int (entropy w (cursor w)) mod (hi - lo + 1)),
            w\<lparr>cursor := Suc (cursor w),
              seen := insert (lo + int (entropy w (cursor w)) mod (hi - lo + 1)) (seen w)\<rparr>)"
  using unique_loop_first[OF assms, of 998]
  by (simp add: unique_random_int_def UNIQUENESS_MAX_RETRIES_def)

lemma make_record_first:
  assumes "100000 + int (entropy w (cursor w)) mod 900000 \<notin> seen w"
  shows "\<exists>r. make_record w =
           (Inr r, w\<lparr>cursor := cursor w + 8,
                     seen := insert (100000 + int (entropy w (cursor w)) mod 900000) (seen w)\<rparr>)"
  using assms unique_random_int_first[where lo = 100000 and hi = 999999 and w = w]
  by (simp add: make_record_def provide_def date_this_decade_def next_raw_def)

lemma fresh_run_2:
  "\<exists>df w'. generate_data_pandas 2 fresh_world = (Inr df, w')"
proof -
  define w1 where "w1 = fresh_world\<lparr>cursor := 8, seen := {100000}\<rparr>"
  define w2 where "w2 = fresh_world\<lparr>cursor := 16, seen := {100008, 100000}\<rparr>"
  obtain r1 where r1: "make_record fresh_world = (Inr r1, w1)"
    using make_record_first[of fresh_world] by (auto simp: fresh_world_def w1_def)
  obtain r2 where r2: "make_record w1 = (Inr r2, w2)"
    using make_record_first[of w1] by (auto simp: fresh_world_def w1_def w2_def)
  have "generate_loop 2 [] fresh_world = (Inr [r1, r2], w2)"
    by (simp add: numeral_2_eq_2 r1 r2)
  then show ?thesis
    by (simp add: generate_data_pandas_def)
qed

lemma fresh_run_2_state:
  "\<exists>df. generate_data_pandas 2 fresh_world =
          (Inr df, fresh_world\<lparr>cursor := 16, seen := {100008, 100000},
                               stdout := [PreparationDone]\<rparr>)"
proof -
  define w1 where "w1 = fresh_world\<lparr>cursor := 8, seen := {100000}\<rparr>"
  define w2 where "w2 = fresh_world\<lparr>cursor := 16, seen := {100008, 100000}\<rparr>"
  obtain r1 where r1: "make_record fresh_world = (Inr r1, w1)"
    using make_record_first[of fresh_world] by (auto simp: fresh_world_def w1_def)
  obtain r2 where r2: "make_record w1 = (Inr r2, w2)"
    using make_record_first[of w1] by (auto simp: fresh_world_def w1_def w2_def)
  have "generate_loop 2 [] fresh_world = (Inr [r1, r2], w2)"
    by (simp add: numeral_2_eq_2 r1 r2)
  then have "generate_data_pandas 2 fresh_world = (Inr (DataFrame [r1, r2]), print PreparationDone w2)"
    by (simp add: generate_data_pandas_def)
  moreover have "print PreparationDone w2 =
      fresh_world\<lparr>cursor := 16, seen := {100008, 100000}, stdout := [PreparationDone]\<rparr>"
    by (simp add: print_def w2_def fresh_world_def)
  ultimately show ?thesis by auto
qed

section \<open>Properties of the generator\<close>

text \<open>
  C3: for every count below 1 (for example 0 and -5), generation fails with the
  \<open>ValueError\<close> of line 25 before any record is synthesised: the state of the process
  is as before, with no identifier handed out, no random number drawn and nothing
  printed.
\<close>

theorem generate_rejects_nonpositive:
  "count < 1 \<Longrightarrow> generate_data_pandas count w = (Inl (Exn ValueError msg_count None), w)"
  by (simp add: generate_data_pandas_def)

theorem generate_rejects_nonpositive_witness:
  "(0::int) < 1 \<and> (- 5::int) < 1
   \<and> generate_data_pandas 0 fresh_world = (Inl (Exn ValueError msg_count None), fresh_world)
   \<and> generate_data_pandas (- 5) fresh_world = (Inl (Exn ValueError msg_count None), fresh_world)"
  using generate_rejects_nonpositive[of 0 fresh_world]
    generate_rejects_nonpositive[of "- 5" fresh_world]
  by simp

text \<open>
  C1: for every count of at least 1 for which generation completes without error, the
  table returned has exactly count rows, and its \<open>ID\<close> column holds count integers that
  are pairwise distinct.
\<close>

theorem generate_count_distinct:
  assumes "1 \<le> count" and "generate_data_pandas count w = (Inr df, w')"
  shows "length (rows df) = nat count
       \<and> (\<exists>is. column df col_id = map (\<lambda>i. Some (IntCell i)) is
              \<and> length is = nat count \<and> distinct is)"
  using generate_success[OF assms(2)] by blast

theorem generate_count_distinct_witness:
  "\<exists>df w'. (1::int) \<le> 2 \<and> generate_data_pandas 2 fresh_world = (Inr df, w')
     \<and> length (rows df) = 2
     \<and> (\<exists>is. column df col_id = map (\<lambda>i. Some (IntCell i)) is \<and> length is = 2 \<and> distinct is)"
proof -
  from fresh_run_2 obtain df w' where r: "generate_data_pandas 2 fresh_world = (Inr df, w')"
    by blast
  have h: "(1::int) \<le> 2" by simp
  from generate_count_distinct[OF h r] r show ?thesis by auto
qed

lemma remaining_fresh: "remaining fresh_world = 900000"
  by (simp add: remaining_def fresh_world_def)

lemma generate_exhausted_aux:
  assumes "int (remaining w) < count"
  shows "\<exists>w'. generate_data_pandas count w =
           (Inl (Exn RuntimeError (msg_generation @ msg uniqueness_exception)
                   (Some uniqueness_exception)), w')
         \<and> stdout w' = (if 900000 < count then stdout w @ [CollisionAdvisory] else stdout w)
         \<and> cursor w < cursor w'"
proof -
  from assms have n: "1 \<le> count" by simp
  define w1 where "w1 = (if count > 900000 then print CollisionAdvisory w else w)"
  have r: "remaining w1 = remaining w" by (simp add: w1_def print_def remaining_def)
  have "remaining w1 < nat count" using assms r by simp
  from generate_loop_exhausted[OF this, of "[]"] obtain w2 where
    g: "generate_loop (nat count) [] w1 = (Inl uniqueness_exception, w2)"
    and s: "stdout w2 = stdout w1" by blast
  obtain k where k: "nat count = Suc k" using n by (cases "nat count") auto
  have c: "cursor w1 < cursor w2" using generate_loop_cursor[OF g[unfolded k]] .
  have "generate_data_pandas count w =
          (Inl (Exn RuntimeError (msg_generation @ msg uniqueness_exception)
                  (Some uniqueness_exception)), w2)"
    using n g by (simp add: generate_data_pandas_def w1_def)
  moreover have "stdout w2 = (if 900000 < count then stdout w @ [CollisionAdvisory] else stdout w)"
    using s by (simp add: w1_def print_def)
  moreover have "cursor w < cursor w2" using c by (simp add: w1_def print_def split: if_splits)
  ultimately show ?thesis by blast
qed

text \<open>
  C2: when the requested count exceeds the identifiers of the range that are still free
  (in particular the full capacity of the range plus one, from a fresh process),
  generation returns no table: it fails with the \<open>RuntimeError\<close> of line 44, whose
  message is the fixed prefix followed by the text of the library's uniqueness exception
  and whose context is that exception.
\<close>

theorem generate_exhausted:
  assumes "int (remaining w) < count"
  shows "fst (generate_data_pandas count w) =
           Inl (Exn RuntimeError (msg_generation @ msg uniqueness_exception)
                  (Some uniqueness_exception))"
  using generate_exhausted_aux[OF assms] by auto

theorem generate_exhausted_witness:
  "int (remaining fresh_world) < 900001
   \<and> fst (generate_data_pandas 900001 fresh_world) =
       Inl (Exn RuntimeError (msg_generation @ msg uniqueness_exception)
              (Some uniqueness_exception))"
  using generate_exhausted[of fresh_world 900001] by (simp add: remaining_fresh)

lemma generate_stdout:
  assumes "count \<le> 900000"
  shows "\<exists>ls. stdout (snd (generate_data_pandas count w)) = stdout w @ ls
            \<and> CollisionAdvisory \<notin> set ls"
proof (cases "count < 1")
  case True
  then show ?thesis by (simp add: generate_data_pandas_def)
next
  case False
  obtain res w2 where g: "generate_loop (nat count) [] w = (res, w2)"
    by (cases "generate_loop (nat count) [] w")
  show ?thesis
  proof (cases res)
    case (Inl e)
    with generate_loop_Inl[of "nat count" "[]" w e w2] g have "stdout w2 = stdout w" by simp
    with False assms g Inl show ?thesis by (simp add: generate_data_pandas_def)
  next
    case (Inr data)
    with generate_loop_Inr[of "nat count" "[]" w data w2] g have "stdout w2 = stdout w" by auto
    with False assms g Inr show ?thesis by (simp add: generate_data_pandas_def print_def)
  qed
qed

lemma random_int_stdout:
  "random_int lo hi (w\<lparr>stdout := s\<rparr>)
     = (fst (random_int lo hi w), (snd (random_int lo hi w))\<lparr>stdout := s\<rparr>)"
  by (simp add: random_int_def next_raw_def)

lemma unique_loop_stdout:
  "unique_loop i lo hi r (w\<lparr>stdout := s\<rparr>)
     = (fst (unique_loop i lo hi r w), (snd (unique_loop i lo hi r w))\<lparr>stdout := s\<rparr>)"
proof (induction i arbitrary: r w)
  case 0
  then show ?case by simp
next
  case (Suc i)
  have comm: "w\<lparr>stdout := s, cursor := Suc (cursor w)\<rparr> = w\<lparr>cursor := Suc (cursor w), stdout := s\<rparr>"
    by (cases w) simp
  have step: "\<And>v. unique_loop i lo hi (Some v) (w\<lparr>stdout := s, cursor := Suc (cursor w)\<rparr>)
      = (fst (unique_loop i lo hi (Some v) (w\<lparr>cursor := Suc (cursor w)\<rparr>)),
         (snd (unique_loop i lo hi (Some v) (w\<lparr>cursor := Suc (cursor w)\<rparr>)))\<lparr>stdout := s\<rparr>)"
    unfolding comm by (rule Suc.IH)
  show ?case
  proof (cases r)
    case None
    then show ?thesis by (simp add: random_int_def next_raw_def step)
  next
    case (Some x)
    then show ?thesis by (simp add: random_int_def next_raw_def step)
  qed
qed

lemma make_record_stdout:
  "make_record (w\<lparr>stdout := s\<rparr>)
     = (fst (make_record w), (snd (make_record w))\<lparr>stdout := s\<rparr>)"
proof -
  obtain res w1 where u: "unique_random_int 100000 999999 w = (res, w1)"
    by (cases "unique_random_int 100000 999999 w")
  then have u': "unique_random_int 100000 999999 (w\<lparr>stdout := s\<rparr>) = (res, w1\<lparr>stdout := s\<rparr>)"
    using unique_loop_stdout[where i = UNIQUENESS_MAX_RETRIES and lo = 100000 and hi = 999999
        and r = None and w = w and s = s]
    by (simp add: unique_random_int_def)
  show ?thesis
  proof (cases res)
    case (Inl e)
    with u u' show ?thesis by (simp add: make_record_def)
  next
    case (Inr i)
    with u u' show ?thesis
      by (simp add: make_record_def provide_def date_this_decade_def next_raw_def)
  qed
qed

lemma generate_loop_stdout:
  "generate_loop k data (w\<lparr>stdout := s\<rparr>)
     = (fst (generate_loop k data w), (snd (generate_loop k data w))\<lparr>stdout := s\<rparr>)"
proof (induction k arbitrary: data w)
  case 0
  then show ?case by simp
next
  case (Suc k)
  obtain res w1 where m: "make_record w = (res, w1)" by (cases "make_record w")
  then have m': "make_record (w\<lparr>stdout := s\<rparr>) = (res, w1\<lparr>stdout := s\<rparr>)"
    using make_record_stdout[where w = w and s = s] by simp
  show ?case
  proof (cases res)
    case (Inl e)
    with m m' show ?thesis by simp
  next
    case (Inr r)
    with m m' Suc.IH[where data = "data @ [r]" and w = w1] show ?thesis by simp
  qed
qed

lemma generate_loop_add:
  "generate_loop (k + m) data w =
     (case generate_loop k data w of
        (Inl e, w') \<Rightarrow> (Inl e, w')
      | (Inr d, w') \<Rightarrow> generate_loop m d w')"
proof (induction k arbitrary: data w)
  case 0
  then show ?case by simp
next
  case (Suc k)
  obtain res w1 where m: "make_record w = (res, w1)" by (cases "make_record w")
  show ?case
  proof (cases res)
    case (Inl e)
    with m show ?thesis by simp
  next
    case (Inr r)
    with m Suc.IH[of "data @ [r]" w1] show ?thesis by simp
  qed
qed

lemma generate_loop_seen_mono:
  assumes "generate_loop k data w = (res, w')"
  shows "seen w \<subseteq> seen w'"
proof (cases res)
  case (Inl e)
  with generate_loop_Inl[of k data w e w'] assms show ?thesis by simp
next
  case (Inr d)
  with generate_loop_Inr[of k data w d w'] assms show ?thesis by auto
qed

lemma generate_seen:
  "seen (snd (generate_data_pandas count w))
     = (if count < 1 then seen w else seen (snd (generate_loop (nat count) [] w)))"
proof (cases "count < 1")
  case True
  then show ?thesis by (simp add: generate_data_pandas_def)
next
  case False
  define s where "s = (if count > 900000 then stdout w @ [CollisionAdvisory] else stdout w)"
  have w1: "(if count > 900000 then print CollisionAdvisory w else w) = w\<lparr>stdout := s\<rparr>"
    by (simp add: s_def print_def)
  obtain res w2 where g: "generate_loop (nat count) [] w = (res, w2)"
    by (cases "generate_loop (nat count) [] w")
  then have g': "generate_loop (nat count) [] (w\<lparr>stdout := s\<rparr>) = (res, w2\<lparr>stdout := s\<rparr>)"
    using generate_loop_stdout[where k = "nat count" and data = "[]" and w = w and s = s] by simp
  show ?thesis
  proof (cases res)
    case (Inl e)
    with False g g' show ?thesis
      unfolding generate_data_pandas_def w1 Let_def by simp
  next
    case (Inr d)
    with False g g' show ?thesis
      unfolding generate_data_pandas_def w1 Let_def by (simp add: print_def)
  qed
qed

lemma larger_run_covers_smaller:
  assumes "generate_data_pandas k w = (Inr dfk, wk)" and "k \<le> count"
  shows "seen wk \<subseteq> seen (snd (generate_data_pandas count w))"
proof -
  from generate_success[OF assms(1)] have k1: "1 \<le> k" by simp
  with assms(2) have c1: "\<not> count < 1" by simp
  obtain rk wk0 where gk: "generate_loop (nat k) [] w = (rk, wk0)"
    by (cases "generate_loop (nat k) [] w")
  have "seen wk = seen wk0"
    using generate_seen[of k w] assms(1) k1 gk by simp
  moreover have "\<not> isl rk"
  proof
    assume "isl rk"
    then obtain e where "rk = Inl e" by (cases rk) auto
    with gk have "generate_loop (nat k) [] w = (Inl e, wk0)" by simp
    moreover have "generate_loop (nat k) [] (w\<lparr>stdout := s\<rparr>)
        = (fst (generate_loop (nat k) [] w), (snd (generate_loop (nat k) [] w))\<lparr>stdout := s\<rparr>)"
      for s by (rule generate_loop_stdout)
    ultimately have "isl (fst (generate_data_pandas k w))"
      using k1 by (simp add: generate_data_pandas_def print_def Let_def)
    with assms(1) show False by simp
  qed
  then obtain dk where rk: "rk = Inr dk" by (cases rk) auto
  have "nat count = nat k + (nat count - nat k)" using assms(2) k1 by simp
  then have "generate_loop (nat count) [] w = generate_loop (nat count - nat k) dk wk0"
    using generate_loop_add[of "nat k" "nat count - nat k" "[]" w] gk rk by simp
  then have "seen wk0 \<subseteq> seen (snd (generate_loop (nat count) [] w))"
    using generate_loop_seen_mono[of "nat count - nat k" dk wk0] by (metis prod.collapse)
  ultimately show ?thesis using generate_seen[of count w] c1 by simp
qed

lemma first_draw_issued:
  assumes "100000 + int (entropy w (cursor w)) mod 900000 \<notin> seen w"
  shows "\<exists>df. generate_data_pandas 1 w =
           (Inr df, print PreparationDone
              (w\<lparr>cursor := cursor w + 8,
                 seen := insert (100000 + int (entropy w (cursor w)) mod 900000) (seen w)\<rparr>))"
proof -
  from make_record_first[OF assms] obtain r where
    r: "make_record w =
          (Inr r, w\<lparr>cursor := cursor w + 8,
                    seen := insert (100000 + int (entropy w (cursor w)) mod 900000) (seen w)\<rparr>)"
    by blast
  then have "generate_loop (Suc 0) [] w =
          (Inr [r], w\<lparr>cursor := cursor w + 8,
                      seen := insert (100000 + int (entropy w (cursor w)) mod 900000) (seen w)\<rparr>)"
    by simp
  then show ?thesis by (simp add: generate_data_pandas_def)
qed

text \<open>
  C8: for every count above 900000 the call prints the collision advisory and then goes
  on to generate: the advisory is the only line it prints, it draws from the random
  generator after it, it hands out the first number drawn when that number is free, and
  it hands out every identifier that a successful run of fewer records hands out from
  the same state. For every count of at most 900000 it prints no advisory.
\<close>

theorem generate_advisory:
  "(900000 < count \<longrightarrow>
      printed w (snd (generate_data_pandas count w)) = [CollisionAdvisory]
      \<and> cursor w < cursor (snd (generate_data_pandas count w))
      \<and> seen w \<subseteq> seen (snd (generate_data_pandas count w))
      \<and> (100000 + int (entropy w (cursor w)) mod 900000 \<notin> seen w \<longrightarrow>
           100000 + int (entropy w (cursor w)) mod 900000
             \<in> seen (snd (generate_data_pandas count w)))
      \<and> (\<forall>k dfk wk. k \<le> count \<and> generate_data_pandas k w = (Inr dfk, wk) \<longrightarrow>
           seen wk \<subseteq> seen (snd (generate_data_pandas count w))))
   \<and> (count \<le> 900000 \<longrightarrow>
      CollisionAdvisory \<notin> set (printed w (snd (generate_data_pandas count w))))"
proof (intro conjI impI allI)
  assume a: "900000 < count"
  have "int (remaining w) < count" using remaining_le[of w] a by simp
  from generate_exhausted_aux[OF this] a
  show "printed w (snd (generate_data_pandas count w)) = [CollisionAdvisory]"
    and "cursor w < cursor (snd (generate_data_pandas count w))"
    by (auto simp: printed_def)
next
  assume a: "900000 < count"
  obtain res w2 where g: "generate_loop (nat count) [] w = (res, w2)"
    by (cases "generate_loop (nat count) [] w")
  from generate_loop_seen_mono[OF g] g a
  show "seen w \<subseteq> seen (snd (generate_data_pandas count w))"
    by (simp add: generate_seen)
next
  assume a: "900000 < count"
    and f: "100000 + int (entropy w (cursor w)) mod 900000 \<notin> seen w"
  from first_draw_issued[OF f] obtain df where
    d: "generate_data_pandas 1 w =
           (Inr df, print PreparationDone
              (w\<lparr>cursor := cursor w + 8,
                 seen := insert (100000 + int (entropy w (cursor w)) mod 900000) (seen w)\<rparr>))"
    by blast
  have "(1::int) \<le> count" using a by simp
  from larger_run_covers_smaller[OF d this]
  show "100000 + int (entropy w (cursor w)) mod 900000
          \<in> seen (snd (generate_data_pandas count w))"
    by (simp add: print_def)
next
  fix k dfk wk
  assume "900000 < count"
    and "k \<le> count \<and> generate_data_pandas k w = (Inr dfk, wk)"
  then show "seen wk \<subseteq> seen (snd (generate_data_pandas count w))"
    using larger_run_covers_smaller[of k w dfk wk count] by simp
next
  assume "count \<le> 900000"
  from generate_stdout[OF this, of w]
  show "CollisionAdvisory \<notin> set (printed w (snd (generate_data_pandas count w)))"
    by (auto simp: printed_def)
qed

theorem generate_advisory_witness:
  "(900000::int) < 900001
   \<and> printed fresh_world (snd (generate_data_pandas 900001 fresh_world)) = [CollisionAdvisory]
   \<and> cursor fresh_world < cursor (snd (generate_data_pandas 900001 fresh_world))
   \<and> 100000 + int (entropy fresh_world (cursor fresh_world)) mod 900000 \<notin> seen fresh_world
   \<and> 100000 \<in> seen (snd (generate_data_pandas 900001 fresh_world))
   \<and> (\<exists>dfk wk. (2::int) \<le> 900001 \<and> generate_data_pandas 2 fresh_world = (Inr dfk, wk)
        \<and> seen wk = {100008, 100000}
        \<and> seen wk \<subseteq> seen (snd (generate_data_pandas 900001 fresh_world)))
   \<and> (900000::int) \<le> 900000
   \<and> CollisionAdvisory \<notin> set (printed fresh_world (snd (generate_data_pandas 900000 fresh_world)))"
proof -
  have big: "(900000::int) < 900001" by simp
  note t = generate_advisory[of 900001 fresh_world, THEN conjunct1, THEN mp, OF big]
  have fresh: "100000 + int (entropy fresh_world (cursor fresh_world)) mod 900000
                 \<notin> seen fresh_world"
    by (simp add: fresh_world_def)
  have v: "100000 + int (entropy fresh_world (cursor fresh_world)) mod 900000 = 100000"
    by (simp add: fresh_world_def)
  from t have p: "printed fresh_world (snd (generate_data_pandas 900001 fresh_world))
                    = [CollisionAdvisory]"
    and c: "cursor fresh_world < cursor (snd (generate_data_pandas 900001 fresh_world))"
    and i: "100000 + int (entropy fresh_world (cursor fresh_world)) mod 900000 \<notin> seen fresh_world
              \<longrightarrow> 100000 + int (entropy fresh_world (cursor fresh_world)) mod 900000
                    \<in> seen (snd (generate_data_pandas 900001 fresh_world))"
    and s: "\<forall>k dfk wk. k \<le> 900001 \<and> generate_data_pandas k fresh_world = (Inr dfk, wk) \<longrightarrow>
              seen wk \<subseteq> seen (snd (generate_data_pandas 900001 fresh_world))"
    by simp_all
  from i fresh v have i': "100000 \<in> seen (snd (generate_data_pandas 900001 fresh_world))"
    by simp
  define wk where
    "wk = fresh_world\<lparr>cursor := 16, seen := {100008, 100000}, stdout := [PreparationDone]\<rparr>"
  from fresh_run_2_state obtain dfk where
    g: "generate_data_pandas 2 fresh_world = (Inr dfk, wk)" unfolding wk_def by blast
  have le: "(2::int) \<le> 900001" by simp
  from s[rule_format, of 2 dfk wk] g le
  have sub: "seen wk \<subseteq> seen (snd (generate_data_pandas 900001 fresh_world))" by simp
  have sk: "seen wk = {100008, 100000}" by (simp add: wk_def)
  from g sk sub le
  have ex: "\<exists>dfk wk. (2::int) \<le> 900001 \<and> generate_data_pandas 2 fresh_world = (Inr dfk, wk)
        \<and> seen wk = {100008, 100000}
        \<and> seen wk \<subseteq> seen (snd (generate_data_pandas 900001 fresh_world))"
    by (intro exI[of _ dfk] exI[of _ wk] conjI)
  have small: "(900000::int) \<le> 900000" by simp
  note n = generate_advisory[of 900000 fresh_world, THEN conjunct2, THEN mp, OF small]
  from big p c fresh i' ex small n show ?thesis by (intro conjI)
qed

lemma every_value_issued:
  assumes "100000 \<le> v" and "v \<le> 999999"
  shows "\<exists>w df w'. generate_data_pandas 1 w = (Inr df, w')
           \<and> column df col_id = [Some (IntCell v)]"
proof -
  define w where "w = fresh_world\<lparr>entropy := (\<lambda>i. nat (v - 100000))\<rparr>"
  have val: "100000 + int (entropy w (cursor w)) mod 900000 = v"
    using assms by (simp add: w_def)
  have "100000 + int (entropy w (cursor w)) mod 900000 \<notin> seen w"
    by (simp add: w_def fresh_world_def)
  from first_draw_issued[OF this] obtain df where
    g: "generate_data_pandas 1 w =
           (Inr df, print PreparationDone
              (w\<lparr>cursor := cursor w + 8,
                 seen := insert (100000 + int (entropy w (cursor w)) mod 900000) (seen w)\<rparr>))"
    by blast
  from generate_success[OF g] obtain "is" where
    i: "column df col_id = map (\<lambda>i. Some (IntCell i)) is" "length is = nat 1"
       "seen (print PreparationDone
              (w\<lparr>cursor := cursor w + 8,
                 seen := insert (100000 + int (entropy w (cursor w)) mod 900000) (seen w)\<rparr>))
          = seen w \<union> set is"
    by blast
  from i(3) val have "set is = {v}" by (simp add: print_def w_def fresh_world_def)
  moreover from i(2) obtain x where "is = [x]" by (cases "is") auto
  ultimately have "is = [v]" by simp
  with i(1) g show ?thesis by auto
qed

lemma identifier_space_range: "identifier_space = {100000..999999}"
proof
  show "identifier_space \<subseteq> {100000..999999}"
  proof
    fix v
    assume "v \<in> identifier_space"
    then obtain n w df w' where g: "generate_data_pandas n w = (Inr df, w')"
      and m: "Some (IntCell v) \<in> set (column df col_id)"
      by (auto simp: identifier_space_def)
    from generate_success[OF g] obtain "is" where
      "column df col_id = map (\<lambda>i. Some (IntCell i)) is" "set is \<subseteq> {100000..999999}"
      by blast
    with m show "v \<in> {100000..999999}" by auto
  qed
next
  show "{100000..999999} \<subseteq> identifier_space"
  proof
    fix v :: int
    assume "v \<in> {100000..999999}"
    then have "100000 \<le> v" "v \<le> 999999" by simp_all
    from every_value_issued[OF this] show "v \<in> identifier_space"
      by (fastforce simp: identifier_space_def)
  qed
qed

text \<open>
  C9: every \<open>ID\<close> of a generated table lies between 100000 and 999999 inclusive, and the
  generator can hand out every value of that range; so the identifier space of the
  program holds exactly 900000 values. That number is the threshold of the advisory of
  line 27: the advisory is printed exactly when the count exceeds the size of the
  identifier space. No call asking for more than 900000 records succeeds.
\<close>

theorem ids_in_range_capacity:
  "(generate_data_pandas count w = (Inr df, w') \<longrightarrow>
      (\<exists>is. column df col_id = map (\<lambda>i. Some (IntCell i)) is
           \<and> (\<forall>i \<in> set is. 100000 \<le> i \<and> i \<le> 999999)))
   \<and> (\<forall>v. 100000 \<le> v \<and> v \<le> 999999 \<longrightarrow>
        (\<exists>w0 df0 w0'. generate_data_pandas 1 w0 = (Inr df0, w0')
           \<and> column df0 col_id = [Some (IntCell v)]))
   \<and> identifier_space = {100000..999999}
   \<and> card identifier_space = 900000
   \<and> (CollisionAdvisory \<in> set (printed w (snd (generate_data_pandas count w)))
        \<longleftrightarrow> int (card identifier_space) < count)
   \<and> (900000 < count \<longrightarrow> isl (fst (generate_data_pandas count w)))"
proof (intro conjI impI allI)
  assume "generate_data_pandas count w = (Inr df, w')"
  from generate_success[OF this]
  show "\<exists>is. column df col_id = map (\<lambda>i. Some (IntCell i)) is
           \<and> (\<forall>i \<in> set is. 100000 \<le> i \<and> i \<le> 999999)"
    by fastforce
next
  fix v :: int
  assume "100000 \<le> v \<and> v \<le> 999999"
  then show "\<exists>w0 df0 w0'. generate_data_pandas 1 w0 = (Inr df0, w0')
           \<and> column df0 col_id = [Some (IntCell v)]"
    using every_value_issued[of v] by simp
next
  show "identifier_space = {100000..999999}" by (rule identifier_space_range)
next
  show "card identifier_space = 900000" by (simp add: identifier_space_range)
next
  have c: "int (card identifier_space) = 900000" by (simp add: identifier_space_range)
  show "CollisionAdvisory \<in> set (printed w (snd (generate_data_pandas count w)))
        \<longleftrightarrow> int (card identifier_space) < count"
  proof (cases "900000 < count")
    case True
    then have "int (remaining w) < count" using remaining_le[of w] by simp
    from generate_exhausted_aux[OF this] True
    have "printed w (snd (generate_data_pandas count w)) = [CollisionAdvisory]"
      by (auto simp: printed_def)
    with True c show ?thesis by simp
  next
    case False
    then have "count \<le> 900000" by simp
    from generate_stdout[OF this, of w]
    have "CollisionAdvisory \<notin> set (printed w (snd (generate_data_pandas count w)))"
      by (auto simp: printed_def)
    with False c show ?thesis by simp
  qed
next
  assume a: "900000 < count"
  have "int (remaining w) < count" using remaining_le[of w] a by simp
  from generate_exhausted_aux[OF this] show "isl (fst (generate_data_pandas count w))" by auto
qed

theorem ids_in_range_capacity_witness:
  "(\<exists>df w'. generate_data_pandas 2 fresh_world = (Inr df, w')
     \<and> (\<exists>is. column df col_id = map (\<lambda>i. Some (IntCell i)) is
           \<and> (\<forall>i \<in> set is. 100000 \<le> i \<and> i \<le> 999999)))
   \<and> (100000::int) \<le> 999999 \<and> (999999::int) \<le> 999999
   \<and> (\<exists>w0 df0 w0'. generate_data_pandas 1 w0 = (Inr df0, w0')
           \<and> column df0 col_id = [Some (IntCell 999999)])
   \<and> CollisionAdvisory \<in> set (printed fresh_world (snd (generate_data_pandas 900001 fresh_world)))
   \<and> int (card identifier_space) < 900001
   \<and> CollisionAdvisory \<notin> set (printed fresh_world (snd (generate_data_pandas 900000 fresh_world)))
   \<and> \<not> int (card identifier_space) < 900000
   \<and> (900000::int) < 900001 \<and> isl (fst (generate_data_pandas 900001 fresh_world))"
proof -
  from fresh_run_2 obtain df w' where r: "generate_data_pandas 2 fresh_world = (Inr df, w')"
    by blast
  note a = ids_in_range_capacity[of 2 fresh_world df w']
  note b = ids_in_range_capacity[of 900001 fresh_world df w']
  note c = ids_in_range_capacity[of 900000 fresh_world df w']
  from a r have 1: "\<exists>df w'. generate_data_pandas 2 fresh_world = (Inr df, w')
     \<and> (\<exists>is. column df col_id = map (\<lambda>i. Some (IntCell i)) is
           \<and> (\<forall>i \<in> set is. 100000 \<le> i \<and> i \<le> 999999))"
    by blast
  from a have "\<forall>v. 100000 \<le> v \<and> v \<le> 999999 \<longrightarrow>
        (\<exists>w0 df0 w0'. generate_data_pandas 1 w0 = (Inr df0, w0')
           \<and> column df0 col_id = [Some (IntCell v)])"
    by blast
  from this[rule_format, of 999999]
  have 2: "\<exists>w0 df0 w0'. generate_data_pandas 1 w0 = (Inr df0, w0')
           \<and> column df0 col_id = [Some (IntCell 999999)]"
    by simp
  from a have k: "card identifier_space = 900000" by blast
  from b k have 3: "CollisionAdvisory
      \<in> set (printed fresh_world (snd (generate_data_pandas 900001 fresh_world)))"
    by simp
  from c k have 4: "CollisionAdvisory
      \<notin> set (printed fresh_world (snd (generate_data_pandas 900000 fresh_world)))"
    by simp
  from b have 5: "isl (fst (generate_data_pandas 900001 fresh_world))" by simp
  from 1 2 3 4 5 k show ?thesis by simp
qed

text \<open>
  C10: the identifiers handed out are remembered by the process, not by the call: for
  two successive successful calls the identifiers of both tables are pairwise distinct,
  and each call takes its count away from the free identifiers the next one finds, so
  that the two counts together cannot exceed 900000.
\<close>

theorem allocator_is_process_global:
  assumes "generate_data_pandas n1 w = (Inr d1, w1)"
    and "generate_data_pandas n2 w1 = (Inr d2, w2)"
  shows "distinct (column d1 col_id @ column d2 col_id)
       \<and> remaining w1 + nat n1 = remaining w
       \<and> remaining w2 + nat n2 = remaining w1
       \<and> n1 + n2 \<le> 900000"
proof -
  from generate_success[OF assms(1)] obtain is1 where
    a: "1 \<le> n1" "column d1 col_id = map (\<lambda>i. Some (IntCell i)) is1" "length is1 = nat n1"
       "distinct is1" "set is1 \<inter> seen w = {}" "set is1 \<subseteq> {100000..999999}"
       "seen w1 = seen w \<union> set is1"
    by blast
  from generate_success[OF assms(2)] obtain is2 where
    b: "1 \<le> n2" "column d2 col_id = map (\<lambda>i. Some (IntCell i)) is2" "length is2 = nat n2"
       "distinct is2" "set is2 \<inter> seen w1 = {}" "set is2 \<subseteq> {100000..999999}"
       "seen w2 = seen w1 \<union> set is2"
    by blast
  have inj: "inj (\<lambda>i. Some (IntCell i))" by (simp add: inj_def)
  have "distinct (is1 @ is2)" using a(4,7) b(4,5) by auto
  then have "distinct (map (\<lambda>i. Some (IntCell i)) (is1 @ is2))"
    using inj by (simp only: distinct_map) (auto intro: inj_on_subset)
  then have d: "distinct (column d1 col_id @ column d2 col_id)" using a(2) b(2) by simp
  have r1: "remaining w1 + nat n1 = remaining w"
    using remaining_after[OF a(4,5,6,7)] a(3) by simp
  have r2: "remaining w2 + nat n2 = remaining w1"
    using remaining_after[OF b(4,5,6,7)] b(3) by simp
  have "nat n1 + nat n2 \<le> 900000" using r1 r2 remaining_le[of w] by linarith
  then have "n1 + n2 \<le> 900000" using a(1) b(1) by linarith
  with d r1 r2 show ?thesis by simp
qed


lemma fresh_run_2_then_1:
  "\<exists>d1 w1 d2 w2. generate_data_pandas 2 fresh_world = (Inr d1, w1)
      \<and> generate_data_pandas 1 w1 = (Inr d2, w2)"
proof -
  define w1 where "w1 = fresh_world\<lparr>cursor := 8, seen := {100000}\<rparr>"
  define w2 where "w2 = fresh_world\<lparr>cursor := 16, seen := {100008, 100000}\<rparr>"
  define w3 where "w3 = print PreparationDone w2"
  define w4 where "w4 = w3\<lparr>cursor := 24, seen := {100016, 100008, 100000}\<rparr>"
  obtain r1 where r1: "make_record fresh_world = (Inr r1, w1)"
    using make_record_first[of fresh_world] by (auto simp: fresh_world_def w1_def)
  obtain r2 where r2: "make_record w1 = (Inr r2, w2)"
    using make_record_first[of w1] by (auto simp: fresh_world_def w1_def w2_def)
  obtain r3 where r3: "make_record w3 = (Inr r3, w4)"
    using make_record_first[of w3]
    by (auto simp: fresh_world_def w2_def w3_def w4_def print_def)
  have "generate_loop 2 [] fresh_world = (Inr [r1, r2], w2)"
    by (simp add: numeral_2_eq_2 r1 r2)
  then have a: "generate_data_pandas 2 fresh_world = (Inr (DataFrame [r1, r2]), w3)"
    by (simp add: generate_data_pandas_def w3_def)
  have "generate_loop (Suc 0) [] w3 = (Inr [r3], w4)"
    by (simp add: r3)
  then have b: "generate_data_pandas 1 w3 = (Inr (DataFrame [r3]), print PreparationDone w4)"
    by (simp add: generate_data_pandas_def)
  from a b show ?thesis by blast
qed

theorem allocator_is_process_global_witness:
  "\<exists>d1 w1 d2 w2. generate_data_pandas 2 fresh_world = (Inr d1, w1)
      \<and> generate_data_pandas 1 w1 = (Inr d2, w2)
      \<and> distinct (column d1 col_id @ column d2 col_id)
      \<and> remaining w1 + 2 = remaining fresh_world
      \<and> remaining w2 + 1 = remaining w1"
proof -
  from fresh_run_2_then_1 obtain d1 w1 d2 w2 where
    r: "generate_data_pandas 2 fresh_world = (Inr d1, w1)"
       "generate_data_pandas 1 w1 = (Inr d2, w2)"
    by blast
  from allocator_is_process_global[OF r] r show ?thesis by auto
qed

section \<open>Properties of the file system and of the exporter\<close>












lemma makedirs_from_frame:
  "makedirs_from cs w = (res, w') \<Longrightarrow>
     files w' = files w \<and> stdout w' = stdout w \<and> dirs w \<subseteq> dirs w'
     \<and> failure w' = failure w \<and> residue w' = residue w"
proof (induction cs arbitrary: w)
  case Nil
  then show ?case by auto
next
  case (Cons c cs)
  show ?case
  proof (cases "c \<in> dirs w")
    case True
    with Cons show ?thesis by simp
  next
    case False
    obtain r w1 where m: "mkdir c w = (r, w1)" by (cases "mkdir c w")
    then have f: "files w1 = files w \<and> stdout w1 = stdout w \<and> dirs w \<subseteq> dirs w1
                \<and> failure w1 = failure w \<and> residue w1 = residue w"
      by (auto simp: mkdir_def split: option.splits if_splits)
    show ?thesis
    proof (cases r)
      case (Inl e)
      with Cons.prems False m f show ?thesis by auto
    next
      case (Inr u)
      with Cons.prems False m have "makedirs_from cs w1 = (res, w')" by simp
      from Cons.IH[OF this] f show ?thesis by auto
    qed
  qed
qed

lemma write_file_Inr:
  "write_file op path doc w = (Inr u, w') \<Longrightarrow> w' = w\<lparr>files := (files w)(path \<mapsto> doc)\<rparr>"
  by (auto simp: write_file_def split: option.splits if_splits)

lemma write_file_Inl:
  "write_file op path doc w = (Inl e, w') \<Longrightarrow>
     stdout w' = stdout w \<and> dirs w' = dirs w \<and> (\<forall>q. q \<noteq> path \<longrightarrow> files w' q = files w q)"
  by (auto simp: write_file_def split: option.splits if_splits)





lemma makedirs_step_frame:
  assumes "(if d \<noteq> [] then makedirs d w else (Inr (), w)) = (res, w1)"
  shows "files w1 = files w \<and> stdout w1 = stdout w"
proof (cases "d = []")
  case True
  with assms show ?thesis by simp
next
  case False
  with assms have "makedirs_from (ancestors d) w = (res, w1)" by (simp add: makedirs_def)
  from makedirs_from_frame[OF this] show ?thesis by simp
qed

text \<open>The run of the \<open>try\<close> body, stage by stage.\<close>

lemma save_all_formats_try_stages:
  assumes "save_all_formats_try df base_name w = (res, w')"
  shows "(isl res \<and> printed w w' = []
            \<and> (isl (fst (if dirname base_name \<noteq> [] then makedirs (dirname base_name) w
                          else (Inr (), w))) \<longrightarrow> files w' = files w))
       \<or> (isl res \<and> printed w w' = [CsvSaved (base_name @ ''.csv'')]
            \<and> files w' (base_name @ ''.csv'') = Some (CsvFile (columns df) (rows df)))
       \<or> (isl res
            \<and> printed w w' = [CsvSaved (base_name @ ''.csv''), JsonSaved (base_name @ ''.json'')]
            \<and> files w' (base_name @ ''.csv'') = Some (CsvFile (columns df) (rows df))
            \<and> files w' (base_name @ ''.json'')
                = Some (JsonFile (map (zip (columns df)) (rows df))))
       \<or> (\<not> isl res
            \<and> printed w w' =
                [CsvSaved (base_name @ ''.csv''), JsonSaved (base_name @ ''.json''),
                 TxtSaved (base_name @ ''.txt''),
                 AllSaved (if dirname base_name \<noteq> [] then dirname base_name
                           else msg_current_dir)]
            \<and> files w' (base_name @ ''.csv'') = Some (CsvFile (columns df) (rows df))
            \<and> files w' (base_name @ ''.json'')
                = Some (JsonFile (map (zip (columns df)) (rows df)))
            \<and> files w' (base_name @ ''.txt'') = Some (TxtFile (columns df) (rows df)))"
proof -
  define d where "d = dirname base_name"
  define csv where "csv = base_name @ ''.csv''"
  define json where "json = base_name @ ''.json''"
  define txt_path where "txt_path = base_name @ ''.txt''"
  have ne: "csv \<noteq> json" "csv \<noteq> txt_path" "json \<noteq> txt_path"
    by (simp_all add: csv_def json_def txt_path_def)
  obtain r0 w1 where pre: "(if d \<noteq> [] then makedirs d w else (Inr (), w)) = (r0, w1)"
    by (cases "if d \<noteq> [] then makedirs d w else (Inr (), w)")
  note f0 = makedirs_step_frame[OF pre]
  obtain r1 w2 where s1: "to_csv df csv w1 = (r1, w2)" by (cases "to_csv df csv w1")
  let ?w3 = "print (CsvSaved csv) w2"
  obtain r2 w4 where s2: "to_json df json ?w3 = (r2, w4)" by (cases "to_json df json ?w3")
  let ?w5 = "print (JsonSaved json) w4"
  obtain r3 w6 where s3: "write_txt df txt_path ?w5 = (r3, w6)" by (cases "write_txt df txt_path ?w5")
  note stage_defs = save_all_formats_try_def d_def[symmetric] csv_def[symmetric]
    json_def[symmetric] txt_path_def[symmetric] Let_def
  show ?thesis
  proof (cases r0)
    case (Inl e)
    with assms pre have "res = Inl e \<and> w' = w1" unfolding stage_defs by simp
    with f0 pre Inl show ?thesis unfolding d_def[symmetric] by (simp add: printed_def)
  next
    case r0: (Inr u0)
    show ?thesis
    proof (cases r1)
      case (Inl e)
      with assms pre r0 s1 have r: "res = Inl e \<and> w' = w2" unfolding stage_defs by simp
      from s1 Inl have "stdout w2 = stdout w1"
        unfolding to_csv_def by (auto dest: write_file_Inl)
      with r f0 pre r0 show ?thesis unfolding d_def[symmetric] by (simp add: printed_def)
    next
      case r1: (Inr u1)
      from s1 r1 have w2: "w2 = w1\<lparr>files := (files w1)(csv \<mapsto> CsvFile (columns df) (rows df))\<rparr>"
        unfolding to_csv_def by (auto dest: write_file_Inr)
      have o3: "stdout ?w3 = stdout w @ [CsvSaved csv]"
        and c3: "files ?w3 csv = Some (CsvFile (columns df) (rows df))"
        using f0 by (simp_all add: w2 print_def)
      show ?thesis
      proof (cases r2)
        case (Inl e)
        with assms pre r0 s1 r1 s2 have r: "res = Inl e \<and> w' = w4"
          unfolding stage_defs by simp
        from s2 Inl have "stdout w4 = stdout ?w3 \<and> files w4 csv = files ?w3 csv"
          unfolding to_json_def using ne by (auto dest: write_file_Inl split: if_splits)
        with r o3 c3 show ?thesis
          unfolding csv_def[symmetric] json_def[symmetric] by (simp add: printed_def)
      next
        case r2: (Inr u2)
        from s2 r2 have w4: "w4 = ?w3\<lparr>files := (files ?w3)(json \<mapsto>
                                       JsonFile (map (zip (columns df)) (rows df)))\<rparr>"
          unfolding to_json_def by (auto dest: write_file_Inr split: if_splits)
        have o5: "stdout ?w5 = stdout w @ [CsvSaved csv, JsonSaved json]"
          and c5: "files ?w5 csv = Some (CsvFile (columns df) (rows df))"
          and j5: "files ?w5 json = Some (JsonFile (map (zip (columns df)) (rows df)))"
          using o3 c3 ne by (simp_all add: w4 print_def)
        show ?thesis
        proof (cases r3)
          case (Inl e)
          with assms pre r0 s1 r1 s2 r2 s3 have r: "res = Inl e \<and> w' = w6"
            unfolding stage_defs by simp
          from s3 Inl have "stdout w6 = stdout ?w5 \<and> files w6 csv = files ?w5 csv
                            \<and> files w6 json = files ?w5 json"
            unfolding write_txt_def using ne by (auto dest: write_file_Inl)
          with r o5 c5 j5 show ?thesis
            unfolding csv_def[symmetric] json_def[symmetric] by (simp add: printed_def)
        next
          case r3: (Inr u3)
          from s3 r3 have w6: "w6 = ?w5\<lparr>files := (files ?w5)(txt_path \<mapsto>
                                         TxtFile (columns df) (rows df))\<rparr>"
            unfolding write_txt_def by (auto dest: write_file_Inr)
          from assms pre r0 s1 r1 s2 r2 s3 r3
          have r: "res = Inr () \<and> w' = print (AllSaved (if d \<noteq> [] then d else msg_current_dir))
                                          (print (TxtSaved txt_path) w6)"
            unfolding stage_defs by simp
          with o5 c5 j5 w6 ne show ?thesis
            unfolding csv_def[symmetric] json_def[symmetric] txt_path_def[symmetric] d_def[symmetric]
            by (simp add: printed_def print_def)
        qed
      qed
    qed
  qed
qed

lemma save_all_formats_result:
  "save_all_formats df base_name w = (res, w') \<Longrightarrow>
     \<exists>r. save_all_formats_try df base_name w = (r, w') \<and> isl res = isl r"
  by (cases "save_all_formats_try df base_name w")
     (auto simp: save_all_formats_def split: sum.splits if_splits)



lemma contains_append: "contains s p \<Longrightarrow> contains (a @ s) p"
  by (induction a) auto





text \<open>
  C5: export takes nothing back when it fails. If the call ends with an error, then
  either it failed before it reported any file, or it had reported the CSV file and that
  file is on disk with the whole table, or it had reported the CSV and the JSON file and
  both are on disk with the whole table.
\<close>

theorem export_no_rollback:
  assumes "save_all_formats df base_name w = (Inl e, w')"
  shows "printed w w' = []
       \<or> (printed w w' = [CsvSaved (base_name @ ''.csv'')]
            \<and> files w' (base_name @ ''.csv'') = Some (CsvFile (columns df) (rows df)))
       \<or> (printed w w' = [CsvSaved (base_name @ ''.csv''), JsonSaved (base_name @ ''.json'')]
            \<and> files w' (base_name @ ''.csv'') = Some (CsvFile (columns df) (rows df))
            \<and> files w' (base_name @ ''.json'')
                = Some (JsonFile (map (zip (columns df)) (rows df))))"
proof -
  from save_all_formats_result[OF assms] obtain r where
    t: "save_all_formats_try df base_name w = (r, w')" and "isl r" by auto
  with save_all_formats_try_stages[OF t] show ?thesis by blast
qed

lemma json_refused_run:
  "save_all_formats sample_df ''out/data'' json_refused_world =
   (Inl (Exn OSError (msg_storage @ msg no_space) (Some no_space)),
    json_refused_world\<lparr>dirs := {''out''},
       files := [''out/data.csv'' \<mapsto> CsvFile (columns sample_df) (rows sample_df)],
       stdout := [CsvSaved ''out/data.csv'']\<rparr>)"
  by (simp add: save_all_formats_def save_all_formats_try_def makedirs_def ancestors_def
        mkdir_def to_csv_def to_json_def write_file_def parent_exists_def dirname_def
        json_refused_world_def fresh_world_def print_def no_space_def sample_df_def Let_def)

theorem export_no_rollback_witness:
  "\<exists>e w'. save_all_formats sample_df ''out/data'' json_refused_world = (Inl e, w')
     \<and> printed json_refused_world w' = [CsvSaved ''out/data.csv'']
     \<and> files w' ''out/data.csv'' = Some (CsvFile (columns sample_df) (rows sample_df))"
proof -
  define w' where "w' = json_refused_world\<lparr>dirs := {''out''},
       files := [''out/data.csv'' \<mapsto> CsvFile (columns sample_df) (rows sample_df)],
       stdout := [CsvSaved ''out/data.csv'']\<rparr>"
  have r: "save_all_formats sample_df ''out/data'' json_refused_world =
             (Inl (Exn OSError (msg_storage @ msg no_space) (Some no_space)), w')"
    unfolding w'_def by (rule json_refused_run)
  have p: "printed json_refused_world w' = [CsvSaved ''out/data.csv'']"
    by (simp add: printed_def w'_def json_refused_world_def fresh_world_def)
  from export_no_rollback[OF r] p r show ?thesis by auto
qed








lemma csv_refused_run:
  "save_all_formats sample_df ''data'' csv_refused_world =
     (Inl (Exn OSError (msg_storage @ msg no_space) (Some no_space)), csv_refused_world)"
  by (simp add: save_all_formats_def save_all_formats_try_def to_csv_def write_file_def
        dirname_def csv_refused_world_def fresh_world_def no_space_def Let_def)

text \<open>
  C7 as stated does not hold: it asks that the error raised for a file system failure
  name the failing path. With the disk full while \<open>data.csv\<close> is written, the
  operating system's error carries no file name, and the \<open>OSError\<close> that export raises
  consists of the fixed prefix and that text: the path does not occur in it.
\<close>

theorem storage_error_names_path_counterexample:
  "failure csv_refused_world (ToCsv ''data.csv'') = Some no_space
   \<and> cls no_space = OSError
   \<and> fst (save_all_formats sample_df ''data'' csv_refused_world)
       = Inl (Exn OSError (msg_storage @ msg no_space) (Some no_space))
   \<and> \<not> contains (msg_storage @ msg no_space) ''data.csv''"
proof -
  have "\<not> contains (msg_storage @ msg no_space) ''data.csv''"
    by (simp add: msg_storage_def no_space_def)
  moreover have "failure csv_refused_world (ToCsv ''data.csv'') = Some no_space"
    by (simp add: csv_refused_world_def)
  moreover have "cls no_space = OSError" by (simp add: no_space_def)
  ultimately show ?thesis by (simp add: csv_refused_run)
qed

text \<open>
  C7 (amended): an \<open>OSError\<close> raised in the body of export is raised again as an
  \<open>OSError\<close> whose message is a fixed prefix followed by the text of the original
  error, and any other exception as a \<open>RuntimeError\<close> with another fixed prefix
  followed by that text; in both cases the original error is kept as the context, and
  whatever the text of the original error names, the path included, the new message
  names too.
\<close>

theorem export_error_wrapping:
  assumes "save_all_formats df base_name w = (Inl e, w')"
  shows "\<exists>e0. save_all_formats_try df base_name w = (Inl e0, w')
           \<and> ctx e = Some e0
           \<and> cls e = (if cls e0 = OSError then OSError else RuntimeError)
           \<and> msg e = (if cls e0 = OSError then msg_storage else msg_unexpected) @ msg e0
           \<and> (\<forall>p. contains (msg e0) p \<longrightarrow> contains (msg e) p)"
proof -
  obtain r w1 where t: "save_all_formats_try df base_name w = (r, w1)"
    by (cases "save_all_formats_try df base_name w")
  with assms obtain e0 where r: "r = Inl e0"
    by (cases r) (auto simp: save_all_formats_def)
  from assms t r have
    e: "e = Exn (if cls e0 = OSError then OSError else RuntimeError)
               ((if cls e0 = OSError then msg_storage else msg_unexpected) @ msg e0) (Some e0)"
    and w: "w1 = w'"
    by (auto simp: save_all_formats_def split: if_splits)
  have "\<forall>p. contains (msg e0) p \<longrightarrow> contains (msg e) p"
    using e by (simp add: contains_append)
  with t r e w show ?thesis by simp
qed

theorem export_error_wrapping_witness:
  "\<exists>e w'. save_all_formats sample_df ''data'' csv_refused_world = (Inl e, w')
     \<and> save_all_formats_try sample_df ''data'' csv_refused_world = (Inl no_space, w')
     \<and> ctx e = Some no_space \<and> cls e = OSError \<and> msg e = msg_storage @ msg no_space
     \<and> contains (msg no_space) ''No space''
     \<and> contains (msg e) ''No space''"
proof -
  from export_error_wrapping[OF csv_refused_run] obtain e0 where
    a: "save_all_formats_try sample_df ''data'' csv_refused_world = (Inl e0, csv_refused_world)"
       "\<forall>p. contains (msg e0) p \<longrightarrow>
            contains (msg (Exn OSError (msg_storage @ msg no_space) (Some no_space))) p"
       "ctx (Exn OSError (msg_storage @ msg no_space) (Some no_space)) = Some e0"
    by blast
  from a(3) have e0: "e0 = no_space" by simp
  have c: "contains (msg no_space) ''No space''" by (simp add: no_space_def)
  with a(2) e0 have "contains (msg (Exn OSError (msg_storage @ msg no_space) (Some no_space)))
                       ''No space''"
    by blast
  with a(1) e0 c csv_refused_run show ?thesis by simp
qed

end
